theory Spec2Isabelle
  imports Main "HOL-Library.Word" "HOL-Library.Sublist"
begin

section \<open>Data model of the cookie policy engine\<close>

text \<open>
  The engine is the class \<^verbatim>\<open>CookieGuardianBackground\<close> of \<^verbatim>\<open>background.js\<close> together
  with \<^verbatim>\<open>CookieEncryption\<close> of \<^verbatim>\<open>encryption.js\<close>. Its mutable fields and the part of the
  browser it talks to (cookie store, key/value storage, clock, random source, crypto) are
  made explicit: handlers take a state and return the new one. A handler is modelled as
  running from start to end without another handler in between.
\<close>

type_synonym byte = "8 word"

text \<open>
  Cookie values are JavaScript strings, sequences of UTF-16 code units: what
  \<^verbatim>\<open>TextEncoder\<close> returns depends on the code units. Names, domains, patterns and
  the Base64 text of an envelope are kept in the 8-bit range (\<open>string\<close>);
  \<open>js\<close> reads such a string as code units.
\<close>

type_synonym jsstring = "16 word list"

definition js :: "string \<Rightarrow> jsstring" where
  "js s = map (\<lambda>c. of_nat (of_char c)) s"

text \<open>The index of the first occurrence of an element in a list.\<close>

fun position :: "'a \<Rightarrow> 'a list \<Rightarrow> nat option" where
  "position x [] = None"
| "position x (y # ys) = (if x = y then Some 0 else map_option Suc (position x ys))"

text \<open>A number the code stores as an expiration: an integer or \<^verbatim>\<open>NaN\<close>.\<close>

datatype jsnum = Num int | NaN

text \<open>\<^verbatim>\<open>!x\<close> for an optional number: undefined, \<^verbatim>\<open>0\<close> and \<^verbatim>\<open>NaN\<close> are falsy.\<close>

fun falsy_num :: "jsnum option \<Rightarrow> bool" where
  "falsy_num None = True"
| "falsy_num (Some (Num n)) = (n = 0)"
| "falsy_num (Some NaN) = True"

record cookie =
  c_name :: string
  c_domain :: string
  c_path :: string
  c_value :: jsstring
  c_secure :: bool
  c_httpOnly :: bool
  c_expirationDate :: "jsnum option"

record changeInfo =
  ci_cookie :: cookie
  ci_removed :: bool
  ci_cause :: string

text \<open>
  A rule of \<^verbatim>\<open>siteRules\<close>. \<^verbatim>\<open>expiration\<close> is a number of minutes or absent;
  \<^verbatim>\<open>pattern\<close>, when present, is a (non-global) \<^verbatim>\<open>RegExp\<close> object, kept as the
  predicate its \<^verbatim>\<open>test\<close> method computes.
\<close>

record rule =
  r_expiration :: "int option"
  r_encrypt :: bool
  r_pattern :: "(string \<Rightarrow> bool) option"
  r_priority :: string
  r_autoDelete :: bool

text \<open>The envelope \<^verbatim>\<open>encryptCookie\<close> returns.\<close>

record envelope =
  e_encrypted :: string
  e_iv :: string
  e_domain :: string
  e_timestamp :: int

text \<open>
  Entries of \<^verbatim>\<open>auditLog\<close>. \<^verbatim>\<open>logCookieChange\<close> writes a change record,
  \<^verbatim>\<open>logAudit\<close> an action with its details; the first field is the timestamp
  (the clock reading in milliseconds that \<^verbatim>\<open>toISOString\<close> renders).
\<close>

datatype details =
    BLACKLIST_DELETED string string string
  | RULE_APPLIED string string int rule
  | ENCRYPTED string string string
  | AUTO_DELETE string string string
  | TAB_VISIT string nat int string

datatype audit_entry =
    ChangeEntry int string string string jsstring
  | AuditEntry int details

subsection \<open>The host\<close>

text \<open>
  What the browser answers is a parameter. Every interaction with the host takes the
  state's \<open>tick\<close> and advances it, so two calls with the same arguments may be
  answered differently.
  \<^item> \<open>RegExp_new src\<close>: \<^verbatim>\<open>new RegExp(src)\<close>; \<open>None\<close> when the constructor throws,
    otherwise the predicate \<^verbatim>\<open>test\<close> computes.
  \<^item> \<open>Date_now\<close>: the clock in milliseconds.
  \<^item> \<open>cookies_remove_ok\<close>, \<open>cookies_set_ok\<close>, \<open>storage_set_ok\<close>, \<open>storage_get_ok\<close>: whether
    the promise of \<^verbatim>\<open>chrome.cookies.remove\<close>, \<^verbatim>\<open>chrome.cookies.set\<close>,
    \<^verbatim>\<open>chrome.storage.local.set\<close>, \<^verbatim>\<open>chrome.storage.local.get\<close> resolves (\<open>False\<close>: it
    rejects and the \<^verbatim>\<open>await\<close> throws).
  \<^item> \<open>getRandomValues\<close>: the bytes \<^verbatim>\<open>crypto.getRandomValues\<close> fills in.
  \<^item> \<open>subtle_generateKey\<close>, \<open>subtle_encrypt\<close>, \<open>subtle_decrypt\<close>: AES-GCM of
    \<^verbatim>\<open>crypto.subtle\<close> on raw keys; \<open>None\<close> when the promise rejects.
\<close>

record host =
  RegExp_new :: "string \<Rightarrow> (string \<Rightarrow> bool) option"
  Date_now :: "nat \<Rightarrow> int"
  cookies_remove_ok :: "nat \<Rightarrow> string \<Rightarrow> string \<Rightarrow> bool"
  cookies_set_ok :: "nat \<Rightarrow> cookie \<Rightarrow> bool"
  storage_set_ok :: "nat \<Rightarrow> string \<Rightarrow> bool"
  storage_get_ok :: "nat \<Rightarrow> bool"
  getRandomValues :: "nat \<Rightarrow> nat \<Rightarrow> byte list"
  subtle_generateKey :: "nat \<Rightarrow> byte list"
  subtle_encrypt :: "byte list \<Rightarrow> byte list \<Rightarrow> byte list \<Rightarrow> byte list option"
  subtle_decrypt :: "byte list \<Rightarrow> byte list \<Rightarrow> byte list \<Rightarrow> byte list option"

text \<open>Calls the engine issues to the cookie store, in order.\<close>

datatype host_call =
    CookiesRemove string string
  | CookiesSet cookie

text \<open>
  \<^verbatim>\<open>chrome.storage.local\<close>: the top-level entries the engine writes (\<open>None\<close>: the
  key is not stored), the side table \<^verbatim>\<open>whitelistRules\<close> the whitelist branch reads,
  and the envelopes, a map from the whole key \<^verbatim>\<open>encrypted_<domain>_<name>\<close>.
\<close>

record store =
  st_siteRules :: "(string \<times> rule) list option"
  st_auditLog :: "audit_entry list option"
  st_whitelist :: "string list option"
  st_blacklist :: "string list option"
  st_encryptionKey :: "string option"
  st_whitelistRules :: "(string \<times> rule) list option"
  st_encrypted :: "string \<rightharpoonup> envelope"

text \<open>
  The state: the fields of the engine (\<open>encryption\<close> is \<open>None\<close> while the module is
  absent, otherwise the \<^verbatim>\<open>key\<close> field of the \<^verbatim>\<open>CookieEncryption\<close> object, itself
  \<open>None\<close> until a key is loaded), the storage, the calls made and the tick.
  \<open>siteRules\<close> lists the own properties of the object in \<^verbatim>\<open>Object.entries\<close> order.
\<close>

record state =
  auditLog :: "audit_entry list"
  siteRules :: "(string \<times> rule) list"
  whitelist :: "string list"
  blacklist :: "string list"
  encryption :: "byte list option option"
  storage :: store
  calls :: "host_call list"
  tick :: nat

section \<open>Audit log\<close>

text \<open>
  \<^verbatim>\<open>this.auditLog.unshift(logEntry); if (this.auditLog.length > 1000)
  this.auditLog = this.auditLog.slice(0, 1000);\<close>
\<close>

definition unshift_capped :: "audit_entry \<Rightarrow> audit_entry list \<Rightarrow> audit_entry list" where
  "unshift_capped e lg =
     (let lg' = e # lg in if length lg' > 1000 then take 1000 lg' else lg')"

text \<open>
  \<^verbatim>\<open>logAudit(action, details)\<close>: reads the clock, prepends, caps, and starts a storage
  write of \<^verbatim>\<open>auditLog.slice(0, 1000)\<close> that nobody awaits.
\<close>

definition logAudit :: "host \<Rightarrow> details \<Rightarrow> state \<Rightarrow> state" where
  "logAudit h d s =
     (let logEntry = AuditEntry (Date_now h (tick s)) d;
          lg = unshift_capped logEntry (auditLog s);
          ok = storage_set_ok h (Suc (tick s)) ''auditLog''
      in s\<lparr>auditLog := lg,
            storage := (if ok then (storage s)\<lparr>st_auditLog := Some (take 1000 lg)\<rparr>
                        else storage s),
            tick := tick s + 2\<rparr>)"

text \<open>
  \<^verbatim>\<open>logCookieChange(changeInfo)\<close>: the change record holds the value cut to 50
  characters plus \<^verbatim>\<open>...\<close>, or \<^verbatim>\<open>empty\<close>; a failed storage write is caught.
\<close>

definition change_entry :: "int \<Rightarrow> changeInfo \<Rightarrow> audit_entry" where
  "change_entry ts ci =
     (let c = ci_cookie ci in
      ChangeEntry ts (c_name c) (c_domain c)
        (if ci_removed ci then ''REMOVED'' else ci_cause ci)
        (if c_value c \<noteq> [] then
           (if length (c_value c) > 50 then take 50 (c_value c) @ js ''...'' else c_value c)
         else js ''empty''))"

definition logCookieChange :: "host \<Rightarrow> changeInfo \<Rightarrow> state \<Rightarrow> state" where
  "logCookieChange h ci s =
     (let logEntry = change_entry (Date_now h (tick s)) ci;
          lg = unshift_capped logEntry (auditLog s);
          ok = storage_set_ok h (Suc (tick s)) ''auditLog''
      in s\<lparr>auditLog := lg,
            storage := (if ok then (storage s)\<lparr>st_auditLog := Some lg\<rparr> else storage s),
            tick := tick s + 2\<rparr>)"

text \<open>One append to the log, by either of the two functions.\<close>

datatype append = ByLogAudit details | ByLogCookieChange changeInfo

fun do_append :: "host \<Rightarrow> append \<Rightarrow> state \<Rightarrow> state" where
  "do_append h (ByLogAudit d) s = logAudit h d s"
| "do_append h (ByLogCookieChange ci) s = logCookieChange h ci s"

fun entry_of :: "host \<Rightarrow> append \<Rightarrow> state \<Rightarrow> audit_entry" where
  "entry_of h (ByLogAudit d) s = AuditEntry (Date_now h (tick s)) d"
| "entry_of h (ByLogCookieChange ci) s = change_entry (Date_now h (tick s)) ci"

fun do_appends :: "host \<Rightarrow> append list \<Rightarrow> state \<Rightarrow> state" where
  "do_appends h [] s = s"
| "do_appends h (a # as) s = do_appends h as (do_append h a s)"

section \<open>List patterns and regular expressions\<close>

text \<open>\<^verbatim>\<open>pattern.replace(/\*/g, '.*')\<close>: every \<^verbatim>\<open>*\<close> becomes \<^verbatim>\<open>.*\<close>, nothing else changes.\<close>

definition replace_star :: "string \<Rightarrow> string" where
  "replace_star p = concat (map (\<lambda>c. if c = CHR ''*'' then ''.*'' else [c]) p)"

text \<open>
  \<^verbatim>\<open>new RegExp(pattern.replace(/\*/g, '.*'))\<close> followed by \<^verbatim>\<open>regex.test(cookie.domain)\<close>,
  inside \<^verbatim>\<open>try\<close>: \<open>None\<close> when the constructor throws, else the result of the test.
\<close>

definition list_pattern_test :: "host \<Rightarrow> string \<Rightarrow> string \<Rightarrow> bool option" where
  "list_pattern_test h p d =
     (case RegExp_new h (replace_star p) of None \<Rightarrow> None | Some t \<Rightarrow> Some (t d))"

subsection \<open>A fragment of ECMAScript regular expressions\<close>

text \<open>
  A model of the host's \<^verbatim>\<open>RegExp\<close> on the patterns built from literal characters,
  \<^verbatim>\<open>.\<close>, a \<^verbatim>\<open>*\<close> after a one-character atom, the anchors \<^verbatim>\<open>^\<close> and \<^verbatim>\<open>$\<close>, and a backslash
  before a syntax character (no flags). Groups, classes, alternatives and the other
  quantifiers are not modelled: \<open>parse\<close> answers \<open>Unmodelled\<close> for them, and no result
  below is about such a pattern.
\<close>

datatype atom = Lit char | AnyChar

datatype item = One atom | Many atom | Bol | Eol

datatype compiled = Regex "item list" | SyntaxError | Unmodelled

definition syntax_chars :: string where
  "syntax_chars = CHR 0x5C # ''^$.*+?()[]{}|/''"

fun cons_item :: "item \<Rightarrow> compiled \<Rightarrow> compiled" where
  "cons_item i (Regex r) = Regex (i # r)"
| "cons_item i SyntaxError = SyntaxError"
| "cons_item i Unmodelled = Unmodelled"

text \<open>
  \<open>parse\<close> reads a pattern left to right. A \<^verbatim>\<open>*\<close> with no atom before it (at the start,
  after an anchor or after another \<^verbatim>\<open>*\<close>) and a backslash at the end are syntax errors.
\<close>

fun parse :: "string \<Rightarrow> compiled" and quantified :: "atom \<Rightarrow> string \<Rightarrow> compiled" where
  "parse [] = Regex []"
| "parse (c # cs) =
     (if c = CHR ''^'' then cons_item Bol (parse cs)
      else if c = CHR ''$'' then cons_item Eol (parse cs)
      else if c = CHR ''*'' then SyntaxError
      else if c = CHR 0x5C then
        (case cs of
           [] \<Rightarrow> SyntaxError
         | e # rest \<Rightarrow> if e \<in> set syntax_chars then quantified (Lit e) rest else Unmodelled)
      else if c \<in> set ''+?()[]{}|'' then Unmodelled
      else quantified (if c = CHR ''.'' then AnyChar else Lit c) cs)"
| "quantified a [] = Regex [One a]"
| "quantified a (c # cs) =
     (if c = CHR ''*'' then cons_item (Many a) (parse cs)
      else cons_item (One a) (parse (c # cs)))"

text \<open>\<^verbatim>\<open>.\<close> matches every character but the line terminators.\<close>

fun atom_matches :: "atom \<Rightarrow> char \<Rightarrow> bool" where
  "atom_matches (Lit c) x = (x = c)"
| "atom_matches AnyChar x = (x \<noteq> CHR 0x0A \<and> x \<noteq> CHR 0x0D)"

text \<open>
  \<open>match_here r b s\<close>: the items match at the front of \<open>s\<close>, the rest of the input, where
  \<open>b\<close> says that \<open>s\<close> is the whole input. A starred atom is tried greedily, then with
  fewer repetitions, as the backtracking matcher does.
\<close>

fun match_here :: "item list \<Rightarrow> bool \<Rightarrow> string \<Rightarrow> bool" where
  "match_here [] b s = True"
| "match_here (Bol # r) b s = (b \<and> match_here r b s)"
| "match_here (Eol # r) b s = (s = [] \<and> match_here r b s)"
| "match_here (One a # r) b [] = False"
| "match_here (One a # r) b (x # s) = (atom_matches a x \<and> match_here r False s)"
| "match_here (Many a # r) b [] = match_here r b []"
| "match_here (Many a # r) b (x # s) =
     ((atom_matches a x \<and> match_here (Many a # r) False s) \<or> match_here r b (x # s))"

text \<open>\<^verbatim>\<open>test\<close> of a regex without the global flag: a match starting at any index.\<close>

fun search :: "item list \<Rightarrow> bool \<Rightarrow> string \<Rightarrow> bool" where
  "search r b [] = match_here r b []"
| "search r b (x # s) = (match_here r b (x # s) \<or> search r False s)"

definition test :: "item list \<Rightarrow> string \<Rightarrow> bool" where
  "test r s = search r True s"

definition fragment_RegExp :: "string \<Rightarrow> (string \<Rightarrow> bool) option" where
  "fragment_RegExp src = (case parse src of Regex r \<Rightarrow> Some (test r) | _ \<Rightarrow> None)"

section \<open>The rule object\<close>

text \<open>
  \<^verbatim>\<open>siteRules\<close> is a plain object. \<^verbatim>\<open>Object.entries\<close> lists its own properties with the
  array-index keys (canonical decimal numbers below \<open>2\<^sup>3\<^sup>2 - 1\<close>) first, in increasing
  order, then the other keys in the order they were created.
\<close>

definition key_number :: "string \<Rightarrow> nat" where
  "key_number k = foldl (\<lambda>n c. 10 * n + (of_char c - 48)) 0 k"

definition is_array_index :: "string \<Rightarrow> bool" where
  "is_array_index k \<longleftrightarrow>
     k \<noteq> [] \<and> list_all (\<lambda>c. c \<in> set ''0123456789'') k \<and>
     (k = ''0'' \<or> hd k \<noteq> CHR ''0'') \<and> key_number k < 4294967295"

fun insert_index :: "string \<Rightarrow> 'v \<Rightarrow> (string \<times> 'v) list \<Rightarrow> (string \<times> 'v) list" where
  "insert_index k v [] = [(k, v)]"
| "insert_index k v ((k', v') # kvs) =
     (if is_array_index k' \<and> key_number k' < key_number k
      then (k', v') # insert_index k v kvs
      else (k, v) # (k', v') # kvs)"

text \<open>
  \<^verbatim>\<open>obj[k] = v\<close>: an existing own property keeps its place; a new one goes to the place
  \<^verbatim>\<open>Object.entries\<close> gives it. Assigning to \<^verbatim>\<open>__proto__\<close> creates no own property.
\<close>

definition obj_set :: "string \<Rightarrow> 'v \<Rightarrow> (string \<times> 'v) list \<Rightarrow> (string \<times> 'v) list" where
  "obj_set k v kvs =
     (if k = ''__proto__'' then kvs
      else if k \<in> fst ` set kvs then map (\<lambda>(k', v'). if k' = k then (k', v) else (k', v')) kvs
      else if is_array_index k then insert_index k v kvs
      else kvs @ [(k, v)])"

text \<open>\<^verbatim>\<open>delete obj[k]\<close>.\<close>

definition obj_delete :: "string \<Rightarrow> (string \<times> 'v) list \<Rightarrow> (string \<times> 'v) list" where
  "obj_delete k kvs = filter (\<lambda>(k', v'). k' \<noteq> k) kvs"


section \<open>Encryption module\<close>

subsection \<open>Text and Base64 conversions of the host\<close>

text \<open>
  \<^verbatim>\<open>new TextEncoder().encode(value)\<close>: the string is read as Unicode scalar values (a
  surrogate pair is one value, a surrogate without its partner becomes U+FFFD), and each
  value is written in UTF-8.
\<close>

definition is_high :: "16 word \<Rightarrow> bool" where
  "is_high u \<longleftrightarrow> 0xD800 \<le> unat u \<and> unat u \<le> 0xDBFF"

definition is_low :: "16 word \<Rightarrow> bool" where
  "is_low u \<longleftrightarrow> 0xDC00 \<le> unat u \<and> unat u \<le> 0xDFFF"

fun to_scalars :: "jsstring \<Rightarrow> nat list" where
  "to_scalars [] = []"
| "to_scalars [u] = [if is_high u \<or> is_low u then 0xFFFD else unat u]"
| "to_scalars (u # v # r) =
     (if is_high u \<and> is_low v
      then (0x10000 + (unat u - 0xD800) * 0x400 + (unat v - 0xDC00)) # to_scalars r
      else (if is_high u \<or> is_low u then 0xFFFD else unat u) # to_scalars (v # r))"

definition utf8_bytes :: "nat \<Rightarrow> byte list" where
  "utf8_bytes c =
     (if c < 0x80 then [of_nat c]
      else if c < 0x800 then [of_nat (0xC0 + c div 64), of_nat (0x80 + c mod 64)]
      else if c < 0x10000 then
        [of_nat (0xE0 + c div 4096), of_nat (0x80 + c div 64 mod 64), of_nat (0x80 + c mod 64)]
      else
        [of_nat (0xF0 + c div 262144), of_nat (0x80 + c div 4096 mod 64),
         of_nat (0x80 + c div 64 mod 64), of_nat (0x80 + c mod 64)])"

definition TextEncoder_encode :: "jsstring \<Rightarrow> byte list" where
  "TextEncoder_encode v = concat (map utf8_bytes (to_scalars v))"

text \<open>
  \<^verbatim>\<open>new TextDecoder().decode(buffer)\<close>: UTF-8 decoding that never fails. A byte that
  cannot start or continue a sequence ends the sequence with U+FFFD and is read again;
  the second byte after \<^verbatim>\<open>E0\<close>, \<^verbatim>\<open>ED\<close>, \<^verbatim>\<open>F0\<close>, \<^verbatim>\<open>F4\<close> has a narrower range. With the
  default options a leading U+FEFF (byte order mark) is dropped. The scalar values are
  written back as UTF-16 code units.
\<close>

definition continuation :: "nat \<Rightarrow> nat \<Rightarrow> byte \<Rightarrow> bool" where
  "continuation lo hi b \<longleftrightarrow> lo \<le> unat b \<and> unat b \<le> hi"

definition second_lo :: "nat \<Rightarrow> nat" where
  "second_lo b0 = (if b0 = 0xE0 then 0xA0 else if b0 = 0xF0 then 0x90 else 0x80)"

definition second_hi :: "nat \<Rightarrow> nat" where
  "second_hi b0 = (if b0 = 0xED then 0x9F else if b0 = 0xF4 then 0x8F else 0xBF)"

fun utf8_decode :: "byte list \<Rightarrow> nat list" where
  "utf8_decode [] = []"
| "utf8_decode (b # bs) =
     (let b0 = unat b in
      if b0 \<le> 0x7F then b0 # utf8_decode bs
      else if 0xC2 \<le> b0 \<and> b0 \<le> 0xDF then
        (case bs of
           [] \<Rightarrow> [0xFFFD]
         | b1 # r1 \<Rightarrow>
             if continuation 0x80 0xBF b1
             then ((b0 mod 32) * 64 + unat b1 mod 64) # utf8_decode r1
             else 0xFFFD # utf8_decode bs)
      else if 0xE0 \<le> b0 \<and> b0 \<le> 0xEF then
        (case bs of
           [] \<Rightarrow> [0xFFFD]
         | b1 # r1 \<Rightarrow>
             if \<not> continuation (second_lo b0) (second_hi b0) b1 then 0xFFFD # utf8_decode bs
             else
               (case r1 of
                  [] \<Rightarrow> [0xFFFD]
                | b2 # r2 \<Rightarrow>
                    if continuation 0x80 0xBF b2
                    then ((b0 mod 16) * 4096 + (unat b1 mod 64) * 64 + unat b2 mod 64)
                           # utf8_decode r2
                    else 0xFFFD # utf8_decode r1))
      else if 0xF0 \<le> b0 \<and> b0 \<le> 0xF4 then
        (case bs of
           [] \<Rightarrow> [0xFFFD]
         | b1 # r1 \<Rightarrow>
             if \<not> continuation (second_lo b0) (second_hi b0) b1 then 0xFFFD # utf8_decode bs
             else
               (case r1 of
                  [] \<Rightarrow> [0xFFFD]
                | b2 # r2 \<Rightarrow>
                    if \<not> continuation 0x80 0xBF b2 then 0xFFFD # utf8_decode r1
                    else
                      (case r2 of
                         [] \<Rightarrow> [0xFFFD]
                       | b3 # r3 \<Rightarrow>
                           if continuation 0x80 0xBF b3
                           then ((b0 mod 8) * 262144 + (unat b1 mod 64) * 4096
                                  + (unat b2 mod 64) * 64 + unat b3 mod 64) # utf8_decode r3
                           else 0xFFFD # utf8_decode r2)))
      else 0xFFFD # utf8_decode bs)"

definition utf16_units :: "nat \<Rightarrow> 16 word list" where
  "utf16_units c =
     (if c < 0x10000 then [of_nat c]
      else [of_nat (0xD800 + (c - 0x10000) div 0x400), of_nat (0xDC00 + (c - 0x10000) mod 0x400)])"

definition strip_bom :: "nat list \<Rightarrow> nat list" where
  "strip_bom cs = (case cs of [] \<Rightarrow> [] | c # r \<Rightarrow> if c = 0xFEFF then r else cs)"

definition TextDecoder_decode :: "byte list \<Rightarrow> jsstring" where
  "TextDecoder_decode bs = concat (map utf16_units (strip_bom (utf8_decode bs)))"


text \<open>
  \<^verbatim>\<open>btoa\<close> on a string of char codes below 256: Base64 with padding. \<open>sextets_of\<close> cuts
  the bytes into groups of six bits, the last group filled with zero bits.
\<close>

definition b64_alphabet :: string where
  "b64_alphabet = ''ABCDEFGHIJKLMNOPQRSTUVWXYZabcdefghijklmnopqrstuvwxyz0123456789+/''"

fun sextets_of :: "byte list \<Rightarrow> nat list" where
  "sextets_of (a # b # c # r) =
     [unat a div 4, (unat a mod 4) * 16 + unat b div 16,
      (unat b mod 16) * 4 + unat c div 64, unat c mod 64] @ sextets_of r"
| "sextets_of [a, b] =
     [unat a div 4, (unat a mod 4) * 16 + unat b div 16, (unat b mod 16) * 4]"
| "sextets_of [a] = [unat a div 4, (unat a mod 4) * 16]"
| "sextets_of [] = []"

definition btoa :: "byte list \<Rightarrow> string" where
  "btoa bs =
     map (\<lambda>n. b64_alphabet ! n) (sextets_of bs)
       @ replicate ((3 - length bs mod 3) mod 3) CHR ''=''"

text \<open>
  \<^verbatim>\<open>atob\<close>: ASCII whitespace is removed; when the length is a multiple of four, one or
  two \<^verbatim>\<open>=\<close> at the end are removed; a length of \<open>1\<close> modulo four or a character outside
  the alphabet throws \<^verbatim>\<open>InvalidCharacterError\<close> (\<open>None\<close>); the bits left over in the last
  group are dropped.
\<close>

fun bytes_of :: "nat list \<Rightarrow> byte list" where
  "bytes_of (a # b # c # d # r) =
     [of_nat (a * 4 + b div 16), of_nat ((b mod 16) * 16 + c div 4), of_nat ((c mod 4) * 64 + d)]
       @ bytes_of r"
| "bytes_of [a, b, c] = [of_nat (a * 4 + b div 16), of_nat ((b mod 16) * 16 + c div 4)]"
| "bytes_of [a, b] = [of_nat (a * 4 + b div 16)]"
| "bytes_of [a] = []"
| "bytes_of [] = []"

definition ascii_whitespace :: string where
  "ascii_whitespace = [CHR 0x09, CHR 0x0A, CHR 0x0C, CHR 0x0D, CHR 0x20]"

definition drop_last_eq :: "string \<Rightarrow> string" where
  "drop_last_eq d = (if d \<noteq> [] \<and> last d = CHR ''='' then butlast d else d)"

definition atob :: "string \<Rightarrow> byte list option" where
  "atob s =
     (let d = filter (\<lambda>c. c \<notin> set ascii_whitespace) s;
          d' = (if length d mod 4 = 0 then drop_last_eq (drop_last_eq d) else d)
      in if length d' mod 4 = 1 then None
         else map_option bytes_of (those (map (\<lambda>c. position c b64_alphabet) d')))"

text \<open>
  \<^verbatim>\<open>arrayBufferToBase64(buffer)\<close> is \<^verbatim>\<open>btoa(String.fromCharCode(...new Uint8Array(buffer)))\<close>
  (the limit an engine puts on the number of arguments of a call is not modelled);
  \<^verbatim>\<open>base64ToArrayBuffer(base64)\<close> reads the char codes of \<^verbatim>\<open>atob(base64)\<close>.
\<close>

definition arrayBufferToBase64 :: "byte list \<Rightarrow> string" where
  "arrayBufferToBase64 buffer = btoa buffer"

definition base64ToArrayBuffer :: "string \<Rightarrow> byte list option" where
  "base64ToArrayBuffer base64 = atob base64"

subsection \<open>CookieEncryption\<close>

datatype error = TypeError | OperationError | InvalidCharacterError | StorageRejected

text \<open>
  \<^verbatim>\<open>encryptCookie(value, domain)\<close> with \<^verbatim>\<open>this.key\<close> given as \<open>key\<close> (\<open>None\<close>: still
  \<^verbatim>\<open>null\<close>, and \<^verbatim>\<open>crypto.subtle.encrypt\<close> rejects). The random bytes are read at tick
  \<open>n\<close>, the clock at the next one.
\<close>

definition encryptCookie ::
  "host \<Rightarrow> nat \<Rightarrow> byte list option \<Rightarrow> jsstring \<Rightarrow> string \<Rightarrow> error + envelope" where
  "encryptCookie h n key v d =
     (let iv = getRandomValues h n 12;
          data = TextEncoder_encode v
      in case key of
           None \<Rightarrow> Inl TypeError
         | Some k \<Rightarrow>
             (case subtle_encrypt h k iv data of
                None \<Rightarrow> Inl OperationError
              | Some encrypted \<Rightarrow>
                  Inr \<lparr>e_encrypted = arrayBufferToBase64 encrypted,
                       e_iv = arrayBufferToBase64 iv,
                       e_domain = d,
                       e_timestamp = Date_now h (Suc n)\<rparr>))"

text \<open>
  \<^verbatim>\<open>decryptCookie(encryptedData)\<close>: the two Base64 fields are decoded (the iv first),
  \<^verbatim>\<open>crypto.subtle.decrypt\<close> runs under \<^verbatim>\<open>this.key\<close>, and its result is decoded as text.
  Nothing is caught: a rejection of the host is the rejection of \<^verbatim>\<open>decryptCookie\<close>.
\<close>

definition decryptCookie :: "host \<Rightarrow> byte list option \<Rightarrow> envelope \<Rightarrow> error + jsstring" where
  "decryptCookie h key encryptedData =
     (case base64ToArrayBuffer (e_iv encryptedData) of
        None \<Rightarrow> Inl InvalidCharacterError
      | Some iv \<Rightarrow>
          (case base64ToArrayBuffer (e_encrypted encryptedData) of
             None \<Rightarrow> Inl InvalidCharacterError
           | Some ct \<Rightarrow>
               (case key of
                  None \<Rightarrow> Inl TypeError
                | Some k \<Rightarrow>
                    (case subtle_decrypt h k iv ct of
                       None \<Rightarrow> Inl OperationError
                     | Some decrypted \<Rightarrow> Inr (TextDecoder_decode decrypted)))))"

text \<open>
  The state of one \<^verbatim>\<open>CookieEncryption\<close> object next to the storage it persists to.
  \<^verbatim>\<open>generateNewKey()\<close> takes a key from the host (the one it hands out at tick \<open>n\<close>),
  makes it \<^verbatim>\<open>this.key\<close> and stores its Base64 text under \<^verbatim>\<open>encryptionKey\<close>; when
  the write is rejected, so is \<^verbatim>\<open>generateNewKey\<close>, with \<^verbatim>\<open>this.key\<close> already replaced.
\<close>

record crypto_state =
  key :: "byte list option"
  persisted :: "string option"

definition generateNewKey ::
  "host \<Rightarrow> nat \<Rightarrow> crypto_state \<Rightarrow> error option \<times> crypto_state" where
  "generateNewKey h n cs =
     (let k = subtle_generateKey h n;
          cs' = cs\<lparr>key := Some k\<rparr>
      in if storage_set_ok h (Suc n) ''encryptionKey''
         then (None, cs'\<lparr>persisted := Some (arrayBufferToBase64 k)\<rparr>)
         else (Some StorageRejected, cs'))"


section \<open>The cookie-change handler\<close>

definition cookie_url :: "cookie \<Rightarrow> string" where
  "cookie_url c = ''http'' @ (if c_secure c then ''s'' else '''') @ ''://'' @ c_domain c @ c_path c"

definition envelope_key :: "cookie \<Rightarrow> string" where
  "envelope_key c = ''encrypted_'' @ c_domain c @ ''_'' @ c_name c"

definition sentinel :: "cookie \<Rightarrow> jsstring" where
  "sentinel c = js (''ENCRYPTED_REF_'' @ c_domain c @ ''_'' @ c_name c)"

subsection \<open>Whitelist and blacklist\<close>

text \<open>
  The first loop of \<^verbatim>\<open>applyWhitelistBlacklist\<close>. The result is \<open>True\<close> when the function
  returned \<^verbatim>\<open>false\<close> from inside the loop. A pattern whose \<^verbatim>\<open>RegExp\<close> cannot be built,
  and a rejected \<^verbatim>\<open>chrome.cookies.remove\<close>, land in the \<^verbatim>\<open>catch\<close> of that pattern, and
  the loop goes on with the next one.
\<close>

fun check_blacklist :: "host \<Rightarrow> cookie \<Rightarrow> string list \<Rightarrow> state \<Rightarrow> bool \<times> state" where
  "check_blacklist h c [] s = (False, s)"
| "check_blacklist h c (pattern # ps) s =
     (case RegExp_new h (replace_star pattern) of
        None \<Rightarrow> check_blacklist h c ps s
      | Some regex \<Rightarrow>
          if regex (c_domain c) then
            (let s1 = s\<lparr>calls := calls s @ [CookiesRemove (cookie_url c) (c_name c)],
                       tick := Suc (tick s)\<rparr>
             in if cookies_remove_ok h (tick s) (cookie_url c) (c_name c)
                then (True, logAudit h (BLACKLIST_DELETED (c_name c) (c_domain c) pattern) s1)
                else check_blacklist h c ps s1)
          else check_blacklist h c ps s)"

text \<open>
  Property values the whitelist branch reads from what it takes for the override rule,
  as far as the code looks at them: their truth value and their value as a number.
\<close>

datatype jsval = Undefined | Number int | Boolean bool | Object

fun truthy :: "jsval \<Rightarrow> bool" where
  "truthy Undefined = False"
| "truthy (Number n) = (n \<noteq> 0)"
| "truthy (Boolean b) = b"
| "truthy Object = True"

fun to_number :: "jsval \<Rightarrow> jsnum" where
  "to_number Undefined = NaN"
| "to_number (Number n) = Num n"
| "to_number (Boolean b) = Num (if b then 1 else 0)"
| "to_number Object = NaN"

record looked_up =
  l_expiration :: jsval
  l_encrypt :: jsval

text \<open>
  \<^verbatim>\<open>const whitelistRules = await chrome.storage.local.get(['whitelistRules']);
  const rule = whitelistRules[cookie.domain];\<close>
  The object \<^verbatim>\<open>get\<close> resolves to has one own property at most, named
  \<^verbatim>\<open>whitelistRules\<close>, whose value is the stored side table; the code indexes this
  object, not the table, with the cookie's domain. So \<open>rule\<close> is the table itself for
  the domain \<^verbatim>\<open>whitelistRules\<close>, a member of \<^verbatim>\<open>Object.prototype\<close> for the names the
  object inherits, and \<^verbatim>\<open>undefined\<close> (\<open>None\<close>) for every other domain.
\<close>

definition object_prototype_names :: "string list" where
  "object_prototype_names =
     [''constructor'', ''__defineGetter__'', ''__defineSetter__'', ''hasOwnProperty'',
      ''__lookupGetter__'', ''__lookupSetter__'', ''isPrototypeOf'', ''propertyIsEnumerable'',
      ''toString'', ''valueOf'', ''__proto__'', ''toLocaleString'']"

definition table_as_rule :: "(string \<times> rule) list \<Rightarrow> looked_up" where
  "table_as_rule t =
     \<lparr>l_expiration = (if map_of t ''expiration'' = None then Undefined else Object),
      l_encrypt = (if map_of t ''encrypt'' = None then Undefined else Object)\<rparr>"

definition get_result_lookup :: "store \<Rightarrow> string \<Rightarrow> looked_up option" where
  "get_result_lookup st k =
     (if k = ''whitelistRules'' \<and> st_whitelistRules st \<noteq> None
      then Some (table_as_rule (the (st_whitelistRules st)))
      else if k \<in> set object_prototype_names
      then Some \<lparr>l_expiration = Undefined, l_encrypt = Undefined\<rparr>
      else None)"

text \<open>\<^verbatim>\<open>Math.floor((Date.now() + (x * 60 * 1000)) / 1000)\<close>.\<close>

fun expiry_seconds :: "int \<Rightarrow> jsnum \<Rightarrow> jsnum" where
  "expiry_seconds now (Num x) = Num ((now + x * 60 * 1000) div 1000)"
| "expiry_seconds now NaN = NaN"

text \<open>
  \<^verbatim>\<open>applyWhitelistRule(cookie, rule)\<close>. Both \<^verbatim>\<open>try\<close> blocks swallow their errors, so the
  function always returns; the final \<^verbatim>\<open>chrome.cookies.set\<close> is issued in every case.
\<close>

definition applyWhitelistRule :: "host \<Rightarrow> cookie \<Rightarrow> looked_up \<Rightarrow> state \<Rightarrow> state" where
  "applyWhitelistRule h c rule s =
     (let (u1, s1) =
            (if truthy (l_expiration rule)
             then (c\<lparr>c_expirationDate :=
                        Some (expiry_seconds (Date_now h (tick s)) (to_number (l_expiration rule)))\<rparr>,
                   s\<lparr>tick := Suc (tick s)\<rparr>)
             else (c, s));
          (u2, s2) =
            (if truthy (l_encrypt rule) \<and> encryption s1 \<noteq> None then
               (case encryptCookie h (tick s1) (the (encryption s1)) (c_value c) (c_domain c) of
                  Inl e \<Rightarrow> (u1, s1\<lparr>tick := tick s1 + 2\<rparr>)
                | Inr encrypted \<Rightarrow>
                    if storage_set_ok h (tick s1 + 2) (envelope_key c)
                    then (u1\<lparr>c_value := sentinel c\<rparr>,
                          logAudit h (ENCRYPTED (c_name c) (c_domain c) ''whitelist_rule'')
                            (s1\<lparr>storage := (storage s1)\<lparr>st_encrypted :=
                                    (st_encrypted (storage s1))(envelope_key c \<mapsto> encrypted)\<rparr>,
                                 tick := tick s1 + 3\<rparr>))
                    else (u1, s1\<lparr>tick := tick s1 + 3\<rparr>))
             else (u1, s1))
      in s2\<lparr>calls := calls s2 @ [CookiesSet u2], tick := Suc (tick s2)\<rparr>)"

text \<open>
  The second loop of \<^verbatim>\<open>applyWhitelistBlacklist\<close>; \<open>True\<close> when the function returned
  \<^verbatim>\<open>true\<close> from inside it. A rejected \<^verbatim>\<open>chrome.storage.local.get\<close> is caught like a
  bad pattern.
\<close>

fun check_whitelist :: "host \<Rightarrow> cookie \<Rightarrow> string list \<Rightarrow> state \<Rightarrow> bool \<times> state" where
  "check_whitelist h c [] s = (False, s)"
| "check_whitelist h c (pattern # ps) s =
     (case RegExp_new h (replace_star pattern) of
        None \<Rightarrow> check_whitelist h c ps s
      | Some regex \<Rightarrow>
          if regex (c_domain c) then
            (let s1 = s\<lparr>tick := Suc (tick s)\<rparr>
             in if storage_get_ok h (tick s) then
                  (case get_result_lookup (storage s1) (c_domain c) of
                     None \<Rightarrow> (True, s1)
                   | Some rule \<Rightarrow> (True, applyWhitelistRule h c rule s1))
                else check_whitelist h c ps s1)
          else check_whitelist h c ps s)"

text \<open>
  \<^verbatim>\<open>applyWhitelistBlacklist(cookie)\<close> returns \<^verbatim>\<open>false\<close> (blacklisted and deleted),
  \<^verbatim>\<open>true\<close> (whitelisted) or \<^verbatim>\<open>null\<close>, here \<open>Some False\<close>, \<open>Some True\<close> and \<open>None\<close>.
\<close>

definition applyWhitelistBlacklist :: "host \<Rightarrow> cookie \<Rightarrow> state \<Rightarrow> bool option \<times> state" where
  "applyWhitelistBlacklist h c s =
     (case check_blacklist h c (blacklist s) s of
        (True, s1) \<Rightarrow> (Some False, s1)
      | (False, s1) \<Rightarrow>
          (case check_whitelist h c (whitelist s1) s1 of
             (True, s2) \<Rightarrow> (Some True, s2)
           | (False, s2) \<Rightarrow> (None, s2)))"


subsection \<open>Rules\<close>

text \<open>\<^verbatim>\<open>getDefaultRules()\<close>; each regex literal is given by the predicate it tests.\<close>

definition lower :: "string \<Rightarrow> string" where
  "lower s =
     map (\<lambda>c. case position c ''ABCDEFGHIJKLMNOPQRSTUVWXYZ'' of
                None \<Rightarrow> c
              | Some i \<Rightarrow> ''abcdefghijklmnopqrstuvwxyz'' ! i) s"

definition any_word_ci :: "string list \<Rightarrow> string \<Rightarrow> bool" where
  "any_word_ci ws d = list_ex (\<lambda>w. sublist w (lower d)) ws"

definition getDefaultRules :: "(string \<times> rule) list" where
  "getDefaultRules =
     [(''*'', \<lparr>r_expiration = Some 30, r_encrypt = False, r_pattern = None,
               r_priority = ''medium'', r_autoDelete = False\<rparr>),
      (''banking'', \<lparr>r_expiration = Some 15, r_encrypt = True,
               r_pattern = Some (any_word_ci [''bank'', ''credit'', ''paypal'', ''stripe'']),
               r_priority = ''high'', r_autoDelete = False\<rparr>),
      (''social'', \<lparr>r_expiration = Some 60, r_encrypt = False,
               r_pattern = Some (any_word_ci [''facebook'', ''twitter'', ''instagram'', ''linkedin'']),
               r_priority = ''medium'', r_autoDelete = False\<rparr>),
      (''shopping'', \<lparr>r_expiration = Some 120, r_encrypt = False,
               r_pattern = Some (any_word_ci [''amazon'', ''ebay'', ''shopify'', ''alibaba'']),
               r_priority = ''medium'', r_autoDelete = False\<rparr>)]"

text \<open>\<^verbatim>\<open>rule.pattern && rule.pattern.test(domain)\<close>\<close>

definition pattern_matches :: "rule \<Rightarrow> string \<Rightarrow> bool" where
  "pattern_matches r d = (case r_pattern r of None \<Rightarrow> False | Some t \<Rightarrow> t d)"

text \<open>
  The loop of \<^verbatim>\<open>applyRules\<close> over \<^verbatim>\<open>Object.entries(this.siteRules)\<close>: \<open>Some r\<close> when it
  left through a \<^verbatim>\<open>break\<close> with \<open>matchedRule = r\<close>, \<open>None\<close> when it ran to the end.
  \<^verbatim>\<open>domain.includes(key)\<close> is \<open>sublist key domain\<close>.
\<close>

fun find_rule :: "string \<Rightarrow> (string \<times> rule) list \<Rightarrow> rule option" where
  "find_rule d [] = None"
| "find_rule d ((k, r) # rest) =
     (if k = ''*'' then find_rule d rest
      else if pattern_matches r d then Some r
      else if sublist k d then Some r
      else find_rule d rest)"

text \<open>
  \<open>matchedRule\<close> after the loop: it started as \<^verbatim>\<open>this.siteRules['*']\<close>, which is
  \<^verbatim>\<open>undefined\<close> (\<open>None\<close>) when the object has no such property.
\<close>

definition resolve_rule :: "(string \<times> rule) list \<Rightarrow> string \<Rightarrow> rule option" where
  "resolve_rule rules d =
     (case find_rule d rules of Some r \<Rightarrow> Some r | None \<Rightarrow> map_of rules ''*'')"

text \<open>
  \<^verbatim>\<open>applyRules(cookie)\<close>. Reading \<^verbatim>\<open>matchedRule.expiration\<close> of \<^verbatim>\<open>undefined\<close> throws a
  \<^verbatim>\<open>TypeError\<close> that nothing catches. A rejected \<^verbatim>\<open>chrome.cookies.set\<close> is caught, and
  then no audit entry is written.
\<close>

definition applyRules :: "host \<Rightarrow> cookie \<Rightarrow> state \<Rightarrow> error + state" where
  "applyRules h c s =
     (case resolve_rule (siteRules s) (c_domain c) of
        None \<Rightarrow> Inl TypeError
      | Some matchedRule \<Rightarrow>
          (case r_expiration matchedRule of
             None \<Rightarrow> Inr s
           | Some expiration \<Rightarrow>
               if expiration \<noteq> 0 \<and> falsy_num (c_expirationDate c) then
                 (let expirationDate = Date_now h (tick s) + expiration * 60 * 1000;
                      updatedCookie = c\<lparr>c_expirationDate := Some (Num (expirationDate div 1000))\<rparr>;
                      s1 = s\<lparr>calls := calls s @ [CookiesSet updatedCookie], tick := tick s + 2\<rparr>
                  in if cookies_set_ok h (Suc (tick s)) updatedCookie
                     then Inr (logAudit h
                            (RULE_APPLIED (c_name c) (c_domain c) expiration matchedRule) s1)
                     else Inr s1)
               else Inr s))"

subsection \<open>Encryption by policy\<close>

text \<open>The loop of \<^verbatim>\<open>applyEncryption\<close>; the last argument is \<open>shouldEncrypt\<close> so far.\<close>

fun should_encrypt :: "string \<Rightarrow> (string \<times> rule) list \<Rightarrow> bool \<Rightarrow> bool" where
  "should_encrypt d [] acc = acc"
| "should_encrypt d ((k, r) # rest) acc =
     (if k = ''*'' then should_encrypt d rest (if r_encrypt r then True else acc)
      else if pattern_matches r d then r_encrypt r
      else if sublist k d \<and> r_encrypt r then True
      else should_encrypt d rest acc)"

text \<open>
  \<^verbatim>\<open>applyEncryption(cookie)\<close>. Everything after the test of the sentinel prefix is in one
  \<^verbatim>\<open>try\<close>: a failure of \<^verbatim>\<open>encryptCookie\<close>, of the storage write or of
  \<^verbatim>\<open>chrome.cookies.set\<close> skips what follows it.
\<close>

definition applyEncryption :: "host \<Rightarrow> cookie \<Rightarrow> state \<Rightarrow> state" where
  "applyEncryption h c s =
     (if should_encrypt (c_domain c) (siteRules s) False \<and> encryption s \<noteq> None
         \<and> c_value c \<noteq> [] \<and> \<not> prefix (js ''ENCRYPTED_REF_'') (c_value c)
      then
        (case encryptCookie h (tick s) (the (encryption s)) (c_value c) (c_domain c) of
           Inl e \<Rightarrow> s\<lparr>tick := tick s + 2\<rparr>
         | Inr encrypted \<Rightarrow>
             if \<not> storage_set_ok h (tick s + 2) (envelope_key c) then s\<lparr>tick := tick s + 3\<rparr>
             else
               (let updatedCookie = c\<lparr>c_value := sentinel c\<rparr>;
                    s1 = s\<lparr>storage := (storage s)\<lparr>st_encrypted :=
                                (st_encrypted (storage s))(envelope_key c \<mapsto> encrypted)\<rparr>,
                            calls := calls s @ [CookiesSet updatedCookie],
                            tick := tick s + 4\<rparr>
                in if cookies_set_ok h (tick s + 3) updatedCookie
                   then logAudit h (ENCRYPTED (c_name c) (c_domain c) ''auto_encryption'') s1
                   else s1))
      else s)"

subsection \<open>handleCookieChange\<close>

text \<open>
  The result is the error the handler's promise is rejected with, if any, and the
  state it leaves.
\<close>

definition handleCookieChange :: "host \<Rightarrow> changeInfo \<Rightarrow> state \<Rightarrow> error option \<times> state" where
  "handleCookieChange h ci s =
     (let s1 = logCookieChange h ci s;
          cookie = ci_cookie ci
      in case applyWhitelistBlacklist h cookie s1 of
           (listResult, s2) \<Rightarrow>
             if listResult = Some False then (None, s2)
             else
               (case applyRules h cookie s2 of
                  Inl e \<Rightarrow> (Some e, s2)
                | Inr s3 \<Rightarrow> (None, applyEncryption h cookie s3)))"


section \<open>Sweep and messages\<close>

text \<open>
  \<^verbatim>\<open>cleanOldCookies()\<close> on the cookies \<^verbatim>\<open>chrome.cookies.getAll\<close> returned. With
  \<^verbatim>\<open>now = Date.now() / 1000\<close>, \<^verbatim>\<open>expirationDate - now > 30 * 24 * 60 * 60\<close> is compared
  in milliseconds.
\<close>

fun is_old :: "int \<Rightarrow> cookie \<Rightarrow> bool" where
  "is_old now_ms c =
     (case c_expirationDate c of
        Some (Num e) \<Rightarrow> e \<noteq> 0 \<and> e * 1000 - now_ms > 30 * 24 * 60 * 60 * 1000
      | _ \<Rightarrow> False)"

fun delete_each :: "host \<Rightarrow> cookie list \<Rightarrow> state \<Rightarrow> state" where
  "delete_each h [] s = s"
| "delete_each h (c # cs) s =
     (let s1 = s\<lparr>calls := calls s @ [CookiesRemove (cookie_url c) (c_name c)],
                tick := Suc (tick s)\<rparr>
      in delete_each h cs
           (if cookies_remove_ok h (tick s) (cookie_url c) (c_name c)
            then logAudit h (AUTO_DELETE (c_name c) (c_domain c) ''older_than_30_days'') s1
            else s1))"

definition cleanOldCookies :: "host \<Rightarrow> cookie list \<Rightarrow> state \<Rightarrow> state" where
  "cleanOldCookies h allCookies s =
     delete_each h (filter (is_old (Date_now h (tick s))) allCookies) (s\<lparr>tick := Suc (tick s)\<rparr>)"

text \<open>
  The messages of \<^verbatim>\<open>handleMessage\<close> that the engine serves from its own fields. The
  statistics and category messages (they only read the cookie store) and the backup and
  sync messages (served by \<^verbatim>\<open>sync-manager.js\<close>) are left out.
\<close>

datatype message =
    GET_AUDIT_LOG
  | GET_RULES
  | SAVE_RULE string rule
  | DELETE_RULE string
  | GET_WHITELIST
  | GET_BLACKLIST
  | ADD_TO_LIST string string
  | REMOVE_FROM_LIST string string
  | ENCRYPT_COOKIE jsstring string
  | DECRYPT_COOKIE envelope

datatype response =
    AuditLogResponse "audit_entry list"
  | RulesResponse "(string \<times> rule) list"
  | ListResponse "string list"
  | Success
  | EncryptedResponse envelope
  | DecryptedResponse jsstring
  | NotAvailable
  | Failure error

text \<open>
  A storage write that is rejected is caught by the \<^verbatim>\<open>catch\<close> around the
  \<^verbatim>\<open>switch\<close>: the answer is a failure, the change of the field stays.
\<close>

definition persist :: "host \<Rightarrow> string \<Rightarrow> (store \<Rightarrow> store) \<Rightarrow> state \<Rightarrow> response \<times> state" where
  "persist h k upd s =
     (if storage_set_ok h (tick s) k
      then (Success, s\<lparr>storage := upd (storage s), tick := Suc (tick s)\<rparr>)
      else (Failure StorageRejected, s\<lparr>tick := Suc (tick s)\<rparr>))"

fun handleMessage :: "host \<Rightarrow> message \<Rightarrow> state \<Rightarrow> response \<times> state" where
  "handleMessage h GET_AUDIT_LOG s = (AuditLogResponse (take 100 (auditLog s)), s)"
| "handleMessage h GET_RULES s = (RulesResponse (siteRules s), s)"
| "handleMessage h (SAVE_RULE d r) s =
     (let s1 = s\<lparr>siteRules := obj_set d r (siteRules s)\<rparr>
      in persist h ''siteRules'' (\<lambda>st. st\<lparr>st_siteRules := Some (siteRules s1)\<rparr>) s1)"
| "handleMessage h (DELETE_RULE d) s =
     (let s1 = s\<lparr>siteRules := obj_delete d (siteRules s)\<rparr>
      in persist h ''siteRules'' (\<lambda>st. st\<lparr>st_siteRules := Some (siteRules s1)\<rparr>) s1)"
| "handleMessage h GET_WHITELIST s = (ListResponse (whitelist s), s)"
| "handleMessage h GET_BLACKLIST s = (ListResponse (blacklist s), s)"
| "handleMessage h (ADD_TO_LIST listType pattern) s =
     (let s1 = (if listType = ''whitelist''
                then (if pattern \<in> set (whitelist s) then s
                      else s\<lparr>whitelist := whitelist s @ [pattern]\<rparr>)
                else (if pattern \<in> set (blacklist s) then s
                      else s\<lparr>blacklist := blacklist s @ [pattern]\<rparr>))
      in persist h ''whitelist''
           (\<lambda>st. st\<lparr>st_whitelist := Some (whitelist s1), st_blacklist := Some (blacklist s1)\<rparr>) s1)"
| "handleMessage h (REMOVE_FROM_LIST listType pattern) s =
     (let s1 = (if listType = ''whitelist''
                then s\<lparr>whitelist := filter (\<lambda>p. p \<noteq> pattern) (whitelist s)\<rparr>
                else s\<lparr>blacklist := filter (\<lambda>p. p \<noteq> pattern) (blacklist s)\<rparr>)
      in persist h ''whitelist''
           (\<lambda>st. st\<lparr>st_whitelist := Some (whitelist s1), st_blacklist := Some (blacklist s1)\<rparr>) s1)"
| "handleMessage h (ENCRYPT_COOKIE v d) s =
     (case encryption s of
        None \<Rightarrow> (NotAvailable, s)
      | Some k \<Rightarrow>
          (case encryptCookie h (tick s) k v d of
             Inl e \<Rightarrow> (Failure e, s\<lparr>tick := tick s + 2\<rparr>)
           | Inr encrypted \<Rightarrow> (EncryptedResponse encrypted, s\<lparr>tick := tick s + 2\<rparr>)))"
| "handleMessage h (DECRYPT_COOKIE encryptedData) s =
     (case encryption s of
        None \<Rightarrow> (NotAvailable, s)
      | Some k \<Rightarrow>
          (case decryptCookie h k encryptedData of
             Inl e \<Rightarrow> (Failure e, s)
           | Inr decrypted \<Rightarrow> (DecryptedResponse decrypted, s)))"

text \<open>One operation of the engine, and a run of them.\<close>

datatype operation =
    Message message
  | CookieChanged changeInfo
  | CleanOldCookies "cookie list"

fun step :: "host \<Rightarrow> operation \<Rightarrow> state \<Rightarrow> state" where
  "step h (Message m) s = snd (handleMessage h m s)"
| "step h (CookieChanged ci) s = snd (handleCookieChange h ci s)"
| "step h (CleanOldCookies cs) s = cleanOldCookies h cs s"


section \<open>A concrete host and state\<close>

text \<open>
  A host to evaluate the handlers on: regular expressions of the fragment, a clock
  that starts at \<open>1700000000000\<close> and moves one millisecond per tick, every host call
  accepted, and in place of AES-GCM a stand-in that prepends the 32-byte key and the iv
  to the plaintext and checks both when it decrypts.
\<close>

definition toy_encrypt :: "byte list \<Rightarrow> byte list \<Rightarrow> byte list \<Rightarrow> byte list option" where
  "toy_encrypt k iv m = (if length k = 32 then Some (k @ iv @ m) else None)"

definition toy_decrypt :: "byte list \<Rightarrow> byte list \<Rightarrow> byte list \<Rightarrow> byte list option" where
  "toy_decrypt k iv ct =
     (if length k = 32 \<and> take 32 ct = k \<and> take (length iv) (drop 32 ct) = iv
         \<and> 32 + length iv \<le> length ct
      then Some (drop (32 + length iv) ct) else None)"

definition host0 :: host where
  "host0 =
     \<lparr>RegExp_new = fragment_RegExp,
      Date_now = (\<lambda>n. 1700000000000 + int n),
      cookies_remove_ok = (\<lambda>n url nm. True),
      cookies_set_ok = (\<lambda>n c. True),
      storage_set_ok = (\<lambda>n k. True),
      storage_get_ok = (\<lambda>n. True),
      getRandomValues = (\<lambda>n len. replicate len (of_nat n)),
      subtle_generateKey = (\<lambda>n. replicate 32 (of_nat n)),
      subtle_encrypt = toy_encrypt,
      subtle_decrypt = toy_decrypt\<rparr>"

definition store0 :: store where
  "store0 =
     \<lparr>st_siteRules = None, st_auditLog = None, st_whitelist = None, st_blacklist = None,
      st_encryptionKey = None, st_whitelistRules = None, st_encrypted = Map.empty\<rparr>"

text \<open>The engine after \<^verbatim>\<open>init\<close> on an empty storage, with a key generated.\<close>

definition state0 :: state where
  "state0 =
     \<lparr>auditLog = [], siteRules = getDefaultRules, whitelist = [], blacklist = [],
      encryption = Some (Some (replicate 32 7)), storage = store0, calls = [], tick = 0\<rparr>"

definition cookie0 :: cookie where
  "cookie0 =
     \<lparr>c_name = ''sess'', c_domain = ''x.ads.example.com'', c_path = ''/'', c_value = js ''abc'',
      c_secure = True, c_httpOnly = False, c_expirationDate = None\<rparr>"

definition change0 :: changeInfo where
  "change0 = \<lparr>ci_cookie = cookie0, ci_removed = False, ci_cause = ''explicit''\<rparr>"


section \<open>Properties of the audit log\<close>

lemma unshift_capped_eq: "unshift_capped e lg = e # take 999 lg"
  by (cases "length lg < 1000") (simp_all add: unshift_capped_def Let_def take_Cons')

lemma auditLog_do_append:
  "auditLog (do_append h a s) = entry_of h a s # take 999 (auditLog s)"
  by (cases a) (simp_all add: logAudit_def logCookieChange_def Let_def unshift_capped_eq)

lemma length_auditLog_do_append: "length (auditLog (do_append h a s)) \<le> 1000"
  by (simp add: auditLog_do_append)

lemma length_auditLog_do_appends:
  "length (auditLog s) \<le> 1000 \<Longrightarrow> length (auditLog (do_appends h as s)) \<le> 1000"
  by (induction as arbitrary: s) (simp_all add: length_auditLog_do_append)

text \<open>
  Claim C8. Starting from a log of at most 1000 entries, the log has at most 1000
  entries after every sequence of appends (by \<^verbatim>\<open>logAudit\<close> or \<^verbatim>\<open>logCookieChange\<close>);
  an append puts its entry at index 0, and the new log is the first 1000 entries of the
  new entry followed by the old log: when the cap is exceeded the entries dropped are
  the oldest ones, and the others keep their order.
\<close>

theorem audit_log_capped:
  "length (auditLog s) \<le> 1000 \<Longrightarrow>
     length (auditLog (do_appends h as s)) \<le> 1000 \<and>
     auditLog (do_append h a (do_appends h as s)) ! 0 = entry_of h a (do_appends h as s) \<and>
     auditLog (do_append h a (do_appends h as s))
       = take 1000 (entry_of h a (do_appends h as s) # auditLog (do_appends h as s))"
  by (simp add: length_auditLog_do_appends auditLog_do_append)

theorem audit_log_capped_witness:
  "length (auditLog (state0\<lparr>auditLog := replicate 1000 (ChangeEntry 0 [] [] [] [])\<rparr>)) \<le> 1000 \<and>
   auditLog (do_append host0 (ByLogAudit (AUTO_DELETE ''a'' ''b'' ''c''))
       (do_appends host0 [ByLogCookieChange change0]
          (state0\<lparr>auditLog := replicate 1000 (ChangeEntry 0 [] [] [] [])\<rparr>)))
     = AuditEntry 1700000000002 (AUTO_DELETE ''a'' ''b'' ''c'')
         # change_entry 1700000000000 change0
         # replicate 998 (ChangeEntry 0 [] [] [] [])"
  using audit_log_capped [of "state0\<lparr>auditLog := replicate 1000 (ChangeEntry 0 [] [] [] [])\<rparr>"
      host0 "[ByLogCookieChange change0]" "ByLogAudit (AUTO_DELETE ''a'' ''b'' ''c'')"]
  by (simp add: state0_def host0_def logCookieChange_def logAudit_def Let_def unshift_capped_eq)


section \<open>Rule resolution\<close>

text \<open>
  Resolution as the specification words it, in three tiers: a non-default rule whose
  pattern matches, else a non-default rule whose key is a substring of the domain, else
  the default rule. It is compared with \<open>resolve_rule\<close>, the loop of the source.
\<close>

definition spec_resolve :: "(string \<times> rule) list \<Rightarrow> string \<Rightarrow> rule option" where
  "spec_resolve rules d =
     (case find (\<lambda>(k, r). k \<noteq> ''*'' \<and> pattern_matches r d) rules of
        Some (k, r) \<Rightarrow> Some r
      | None \<Rightarrow>
          (case find (\<lambda>(k, r). k \<noteq> ''*'' \<and> sublist k d) rules of
             Some (k, r) \<Rightarrow> Some r
           | None \<Rightarrow> map_of rules ''*''))"

text \<open>
  A rule map built by two \<^verbatim>\<open>SAVE_RULE\<close> assignments after the default rule: first a rule
  under the key \<^verbatim>\<open>shop\<close> without a pattern, then a rule under \<^verbatim>\<open>banking\<close> with the
  pattern \<^verbatim>\<open>/bank/i\<close>.
\<close>

definition shop_rule :: rule where
  "shop_rule = \<lparr>r_expiration = Some 5, r_encrypt = False, r_pattern = None,
                 r_priority = ''low'', r_autoDelete = False\<rparr>"

definition bank_rule :: rule where
  "bank_rule = \<lparr>r_expiration = Some 15, r_encrypt = True,
                 r_pattern = Some (any_word_ci [''bank'']),
                 r_priority = ''high'', r_autoDelete = False\<rparr>"

definition default_rule :: rule where
  "default_rule = \<lparr>r_expiration = Some 30, r_encrypt = False, r_pattern = None,
                    r_priority = ''medium'', r_autoDelete = False\<rparr>"

definition shop_bank_rules :: "(string \<times> rule) list" where
  "shop_bank_rules =
     obj_set ''banking'' bank_rule (obj_set ''shop'' shop_rule [(''*'', default_rule)])"

lemma shop_bank_rules_eq:
  "shop_bank_rules = [(''*'', default_rule), (''shop'', shop_rule), (''banking'', bank_rule)]"
  by (simp add: shop_bank_rules_def obj_set_def is_array_index_def)

lemma sublist_shop: "sublist ''shop'' ''shop.mybank.com''"
  by (simp add: sublist_code)

lemma bank_rule_matches: "pattern_matches bank_rule ''shop.mybank.com''"
  by (simp add: pattern_matches_def bank_rule_def any_word_ci_def lower_def sublist_code)

lemma shop_rule_no_pattern: "\<not> pattern_matches shop_rule d"
  by (simp add: pattern_matches_def shop_rule_def)

lemma find_rule_find:
  "find_rule d rules =
     map_option snd (find (\<lambda>(k, r). k \<noteq> ''*'' \<and> (pattern_matches r d \<or> sublist k d)) rules)"
  by (induction d rules rule: find_rule.induct) simp_all

lemma find_rule_append:
  "list_all (\<lambda>(k, r). k = ''*'' \<or> \<not> (pattern_matches r d \<or> sublist k d)) pre \<Longrightarrow>
     find_rule d (pre @ rest) = find_rule d rest"
  by (induction pre) auto

text \<open>
  Claim C2, as stated, fails: for the domain \<^verbatim>\<open>shop.mybank.com\<close> the key \<^verbatim>\<open>shop\<close> is a
  substring of the domain and the pattern of the rule inserted later matches it; the
  three tiers give the rule with the pattern, the code resolves the rule \<^verbatim>\<open>shop\<close>.
\<close>

theorem resolve_three_tiers_counterexample:
  "sublist ''shop'' ''shop.mybank.com'' \<and>
   pattern_matches bank_rule ''shop.mybank.com'' \<and>
   spec_resolve shop_bank_rules ''shop.mybank.com'' = Some bank_rule \<and>
   resolve_rule shop_bank_rules ''shop.mybank.com'' = Some shop_rule \<and>
   r_expiration shop_rule \<noteq> r_expiration bank_rule"
  by (simp add: shop_bank_rules_eq resolve_rule_def spec_resolve_def sublist_shop
        bank_rule_matches shop_rule_no_pattern)
     (simp add: shop_rule_def bank_rule_def)

text \<open>
  Claim C2, amended. Resolution goes once through the rules in \<^verbatim>\<open>Object.entries\<close> order
  and picks the first non-default rule whose pattern matches the domain or whose key is
  a substring of it; the default rule is picked only if no non-default rule matches in
  either way. In particular a rule whose key is a substring of the domain, with no
  matching rule before it, is the one resolved whatever follows it, also a rule whose
  pattern matches.
\<close>

theorem resolve_first_match:
  "resolve_rule rules d =
     (case find (\<lambda>(k, r). k \<noteq> ''*'' \<and> (pattern_matches r d \<or> sublist k d)) rules of
        Some (k, r) \<Rightarrow> Some r
      | None \<Rightarrow> map_of rules ''*'') \<and>
   (k1 \<noteq> ''*'' \<and> sublist k1 d \<and>
    list_all (\<lambda>(k, r). k = ''*'' \<or> \<not> (pattern_matches r d \<or> sublist k d)) pre
    \<longrightarrow> resolve_rule (pre @ (k1, r1) # post) d = Some r1)"
proof (intro conjI impI)
  show "resolve_rule rules d =
     (case find (\<lambda>(k, r). k \<noteq> ''*'' \<and> (pattern_matches r d \<or> sublist k d)) rules of
        Some (k, r) \<Rightarrow> Some r
      | None \<Rightarrow> map_of rules ''*'')"
    by (simp add: resolve_rule_def find_rule_find split: option.splits)
next
  assume a: "k1 \<noteq> ''*'' \<and> sublist k1 d \<and>
    list_all (\<lambda>(k, r). k = ''*'' \<or> \<not> (pattern_matches r d \<or> sublist k d)) pre"
  then have "find_rule d (pre @ (k1, r1) # post) = find_rule d ((k1, r1) # post)"
    by (simp add: find_rule_append)
  also have "\<dots> = Some r1"
    using a by simp
  finally show "resolve_rule (pre @ (k1, r1) # post) d = Some r1"
    by (simp add: resolve_rule_def)
qed

theorem resolve_first_match_witness:
  "list_all (\<lambda>(k, r). k = ''*'' \<or> \<not> (pattern_matches r ''shop.mybank.com'' \<or> sublist k ''shop.mybank.com''))
     [(''*'', default_rule)] \<and>
   resolve_rule ([(''*'', default_rule)] @ (''shop'', shop_rule) # [(''banking'', bank_rule)])
     ''shop.mybank.com'' = Some shop_rule"
  using resolve_first_match [of "[(''*'', default_rule)] @ (''shop'', shop_rule) # [(''banking'', bank_rule)]"
      "''shop.mybank.com''" "''shop''" "[(''*'', default_rule)]" shop_rule "[(''banking'', bank_rule)]"]
  by (simp add: sublist_shop)


section \<open>The default rule\<close>

text \<open>Only \<^verbatim>\<open>SAVE_RULE\<close> and \<^verbatim>\<open>DELETE_RULE\<close> change \<open>siteRules\<close>.\<close>

lemma siteRules_logAudit [simp]: "siteRules (logAudit h d s) = siteRules s"
  by (simp add: logAudit_def Let_def)

lemma siteRules_logCookieChange [simp]: "siteRules (logCookieChange h ci s) = siteRules s"
  by (simp add: logCookieChange_def Let_def)

lemma siteRules_check_blacklist [simp]:
  "siteRules (snd (check_blacklist h c ps s)) = siteRules s"
  by (induction ps arbitrary: s) (simp_all add: Let_def split: option.splits)

lemma siteRules_applyWhitelistRule [simp]:
  "siteRules (applyWhitelistRule h c r s) = siteRules s"
  by (simp add: applyWhitelistRule_def Let_def split: sum.splits prod.splits)

lemma siteRules_check_whitelist [simp]:
  "siteRules (snd (check_whitelist h c ps s)) = siteRules s"
  by (induction ps arbitrary: s) (simp_all add: Let_def split: option.splits)

lemma siteRules_applyWhitelistBlacklist [simp]:
  "siteRules (snd (applyWhitelistBlacklist h c s)) = siteRules s"
proof -
  obtain b s1 where 1: "check_blacklist h c (blacklist s) s = (b, s1)"
    by (cases "check_blacklist h c (blacklist s) s")
  obtain w s2 where 2: "check_whitelist h c (whitelist s1) s1 = (w, s2)"
    by (cases "check_whitelist h c (whitelist s1) s1")
  have "siteRules s1 = siteRules s"
    using siteRules_check_blacklist [of h c "blacklist s" s] 1 by simp
  moreover have "siteRules s2 = siteRules s1"
    using siteRules_check_whitelist [of h c "whitelist s1" s1] 2 by simp
  ultimately show ?thesis
    by (simp add: applyWhitelistBlacklist_def 1 2 split: bool.splits)
qed

lemma siteRules_applyRules:
  "applyRules h c s = Inr s' \<Longrightarrow> siteRules s' = siteRules s"
  by (auto simp: applyRules_def Let_def split: option.splits if_splits)

lemma siteRules_applyEncryption [simp]:
  "siteRules (applyEncryption h c s) = siteRules s"
  by (simp add: applyEncryption_def Let_def split: sum.splits)

lemma siteRules_handleCookieChange [simp]:
  "siteRules (snd (handleCookieChange h ci s)) = siteRules s"
proof -
  obtain r s2 where 1: "applyWhitelistBlacklist h (ci_cookie ci) (logCookieChange h ci s) = (r, s2)"
    by (cases "applyWhitelistBlacklist h (ci_cookie ci) (logCookieChange h ci s)")
  have 2: "siteRules s2 = siteRules s"
    using siteRules_applyWhitelistBlacklist [of h "ci_cookie ci" "logCookieChange h ci s"] 1 by simp
  show ?thesis
    by (auto simp: handleCookieChange_def Let_def 1 2 split: sum.splits dest: siteRules_applyRules)
qed

lemma siteRules_delete_each [simp]: "siteRules (delete_each h cs s) = siteRules s"
  by (induction cs arbitrary: s) (simp_all add: Let_def)

lemma siteRules_cleanOldCookies [simp]: "siteRules (cleanOldCookies h cs s) = siteRules s"
  by (simp add: cleanOldCookies_def)

lemma siteRules_persist [simp]: "siteRules (snd (persist h k u s)) = siteRules s"
  by (simp add: persist_def)




















definition org_cookie :: cookie where
  "org_cookie = cookie0\<lparr>c_domain := ''example.org''\<rparr>"






section \<open>Blacklist precedence\<close>

lemma check_blacklist_skip:
  "list_all (\<lambda>q. list_pattern_test h q (c_domain c) \<noteq> Some True) pre \<Longrightarrow>
     check_blacklist h c (pre @ rest) s = check_blacklist h c rest s"
  by (induction pre) (auto simp: list_pattern_test_def split: option.splits)

lemma check_blacklist_hit:
  "list_pattern_test h p (c_domain c) = Some True \<Longrightarrow>
   cookies_remove_ok h (tick s) (cookie_url c) (c_name c) \<Longrightarrow>
     check_blacklist h c (p # rest) s =
       (True, logAudit h (BLACKLIST_DELETED (c_name c) (c_domain c) p)
                (s\<lparr>calls := calls s @ [CookiesRemove (cookie_url c) (c_name c)],
                   tick := Suc (tick s)\<rparr>))"
  by (auto simp: list_pattern_test_def Let_def split: option.splits)

lemma calls_logAudit [simp]: "calls (logAudit h d s) = calls s"
  by (simp add: logAudit_def Let_def)

lemma calls_logCookieChange [simp]: "calls (logCookieChange h ci s) = calls s"
  by (simp add: logCookieChange_def Let_def)

lemma calls_check_blacklist:
  "prefix (calls s) (calls (snd (check_blacklist h c ps s)))"
proof (induction ps arbitrary: s)
  case Nil
  then show ?case by simp
next
  case (Cons p ps)
  have step: "prefix (calls s)
      (calls (snd (check_blacklist h c ps
          (s\<lparr>calls := calls s @ [CookiesRemove (cookie_url c) (c_name c)], tick := Suc (tick s)\<rparr>))))"
    using Cons [of "s\<lparr>calls := calls s @ [CookiesRemove (cookie_url c) (c_name c)], tick := Suc (tick s)\<rparr>"]
    by (auto simp: prefix_def)
  show ?case
    using Cons [of s] step by (simp add: Let_def split: option.splits)
qed

lemma calls_applyWhitelistRule:
  "prefix (calls s) (calls (applyWhitelistRule h c r s))"
  by (simp add: applyWhitelistRule_def Let_def split: sum.splits prod.splits)

lemma calls_check_whitelist:
  "prefix (calls s) (calls (snd (check_whitelist h c ps s)))"
proof (induction ps arbitrary: s)
  case Nil
  then show ?case by simp
next
  case (Cons p ps)
  have 1: "prefix (calls s) (calls (snd (check_whitelist h c ps (s\<lparr>tick := Suc (tick s)\<rparr>))))"
    using Cons [of "s\<lparr>tick := Suc (tick s)\<rparr>"] by simp
  have 2: "prefix (calls s) (calls (applyWhitelistRule h c r (s\<lparr>tick := Suc (tick s)\<rparr>)))" for r
    using calls_applyWhitelistRule [of "s\<lparr>tick := Suc (tick s)\<rparr>" h c r] by simp
  show ?case
    using Cons [of s] 1 2 by (simp add: Let_def split: option.splits)
qed

lemma calls_applyRules:
  "applyRules h c s = Inr s' \<Longrightarrow> prefix (calls s) (calls s')"
  by (auto simp: applyRules_def Let_def split: option.splits if_splits)

lemma calls_applyEncryption: "prefix (calls s) (calls (applyEncryption h c s))"
  by (simp add: applyEncryption_def Let_def split: sum.splits)

lemma calls_after_lists:
  assumes "applyWhitelistBlacklist h c s = (r, s2)"
  shows "prefix (calls (snd (check_blacklist h c (blacklist s) s))) (calls s2)"
proof -
  obtain b s1 where 1: "check_blacklist h c (blacklist s) s = (b, s1)"
    by (cases "check_blacklist h c (blacklist s) s")
  obtain w s3 where 2: "check_whitelist h c (whitelist s1) s1 = (w, s3)"
    by (cases "check_whitelist h c (whitelist s1) s1")
  have "prefix (calls s1) (calls s3)"
    using calls_check_whitelist [of s1 h c "whitelist s1"] 2 by simp
  then show ?thesis
    using assms 1 2 by (auto simp: applyWhitelistBlacklist_def split: bool.splits)
qed

lemma calls_handleCookieChange:
  "prefix (calls (snd (check_blacklist h (ci_cookie ci) (blacklist s) (logCookieChange h ci s))))
     (calls (snd (handleCookieChange h ci s)))"
proof -
  define s1 where "s1 = logCookieChange h ci s"
  have b1: "blacklist s1 = blacklist s"
    by (simp add: s1_def logCookieChange_def Let_def)
  obtain r s2 where wb: "applyWhitelistBlacklist h (ci_cookie ci) s1 = (r, s2)"
    by (cases "applyWhitelistBlacklist h (ci_cookie ci) s1")
  have 1: "prefix (calls (snd (check_blacklist h (ci_cookie ci) (blacklist s) s1))) (calls s2)"
    using calls_after_lists [OF wb] by (simp add: b1)
  have 2: "prefix (calls s2) (calls (applyEncryption h (ci_cookie ci) s3))"
    if "applyRules h (ci_cookie ci) s2 = Inr s3" for s3
    using calls_applyRules [OF that] calls_applyEncryption [of s3 h "ci_cookie ci"]
    by (rule prefix_order.trans)
  have "prefix (calls s2) (calls (snd (handleCookieChange h ci s)))"
    using 2 by (simp add: handleCookieChange_def Let_def s1_def [symmetric] wb split: sum.splits)
  with 1 show ?thesis
    unfolding s1_def by (rule prefix_order.trans)
qed

lemma check_blacklist_hit_calls:
  assumes "list_pattern_test h p (c_domain c) = Some True"
  shows "prefix (calls s @ [CookiesRemove (cookie_url c) (c_name c)])
           (calls (snd (check_blacklist h c (p # rest) s)))"
proof -
  let ?s1 = "s\<lparr>calls := calls s @ [CookiesRemove (cookie_url c) (c_name c)], tick := Suc (tick s)\<rparr>"
  have "prefix (calls ?s1) (calls (snd (check_blacklist h c rest ?s1)))"
    by (rule calls_check_blacklist)
  then show ?thesis
    using assms by (auto simp: list_pattern_test_def Let_def split: option.splits)
qed

lemma parse_ads:
  "parse (replace_star ''*.ads.example.com'') =
     Regex [Many AnyChar, One AnyChar, One (Lit CHR ''a''), One (Lit CHR ''d''),
            One (Lit CHR ''s''), One AnyChar, One (Lit CHR ''e''), One (Lit CHR ''x''),
            One (Lit CHR ''a''), One (Lit CHR ''m''), One (Lit CHR ''p''), One (Lit CHR ''l''),
            One (Lit CHR ''e''), One AnyChar, One (Lit CHR ''c''), One (Lit CHR ''o''),
            One (Lit CHR ''m'')]"
  by (simp add: replace_star_def)

lemma default_resolved: "resolve_rule getDefaultRules ''x.ads.example.com'' = Some default_rule"
  by (simp add: resolve_rule_def getDefaultRules_def pattern_matches_def any_word_ci_def
        lower_def sublist_code default_rule_def)

lemma no_encrypt: "should_encrypt ''x.ads.example.com'' getDefaultRules False = False"
  by (simp add: getDefaultRules_def pattern_matches_def any_word_ci_def lower_def sublist_code)

text \<open>A host that rejects every \<^verbatim>\<open>chrome.cookies.remove\<close>, and the blacklist of the scenario.\<close>

definition rejecting_host :: host where
  "rejecting_host = host0\<lparr>cookies_remove_ok := (\<lambda>n url nm. False)\<rparr>"

definition ads_state :: state where
  "ads_state = state0\<lparr>blacklist := [''*.ads.example.com'']\<rparr>"

text \<open>
  Claim C1, as stated, fails where the host rejects the removal: the rejection is
  caught inside the loop, no \<^verbatim>\<open>BLACKLIST_DELETED\<close> entry is written, the function goes on
  and returns \<^verbatim>\<open>null\<close>, and the handler applies the rules to the blacklisted cookie (a
  \<^verbatim>\<open>chrome.cookies.set\<close> with the default rule's expiration and a \<^verbatim>\<open>RULE_APPLIED\<close> entry).
\<close>

theorem blacklist_rejected_removal_counterexample:
  "list_pattern_test rejecting_host ''*.ads.example.com'' (c_domain (ci_cookie change0)) = Some True \<and>
   calls (snd (handleCookieChange rejecting_host change0 ads_state)) =
     [CookiesRemove ''https://x.ads.example.com/'' ''sess'',
      CookiesSet (cookie0\<lparr>c_expirationDate := Some (Num 1700001800)\<rparr>)] \<and>
   auditLog (snd (handleCookieChange rejecting_host change0 ads_state)) =
     [AuditEntry 1700000000005 (RULE_APPLIED ''sess'' ''x.ads.example.com'' 30 default_rule),
      change_entry 1700000000000 change0]"
  by (simp add: handleCookieChange_def Let_def applyWhitelistBlacklist_def ads_state_def state0_def
        rejecting_host_def host0_def list_pattern_test_def
        fragment_RegExp_def parse_ads test_def change0_def cookie0_def logCookieChange_def
        logAudit_def unshift_capped_eq applyRules_def default_resolved default_rule_def
        applyEncryption_def no_encrypt cookie_url_def)

text \<open>
  Claim C1, amended. Let \<open>p\<close> be the first pattern of the blacklist, in stored order,
  whose regex is built and matches the cookie's domain. The handler asks the cookie
  store to remove the cookie: that call follows the calls made before. If the host
  accepts the removal, the handler returns with exactly this state: the change record
  and, on top of it, one \<^verbatim>\<open>BLACKLIST_DELETED\<close> entry with the cookie's name, its domain
  and \<open>p\<close>; one call to the cookie store, the removal; no envelope stored. Neither the
  whitelist nor the rules are looked at: the statement holds for every whitelist and
  every rule map.
\<close>

theorem blacklist_precedence:
  "blacklist s = pre @ p # post \<Longrightarrow>
   list_all (\<lambda>q. list_pattern_test h q (c_domain (ci_cookie ci)) \<noteq> Some True) pre \<Longrightarrow>
   list_pattern_test h p (c_domain (ci_cookie ci)) = Some True \<Longrightarrow>
     prefix (calls s @ [CookiesRemove (cookie_url (ci_cookie ci)) (c_name (ci_cookie ci))])
       (calls (snd (handleCookieChange h ci s))) \<and>
     (cookies_remove_ok h (tick s + 2) (cookie_url (ci_cookie ci)) (c_name (ci_cookie ci)) \<longrightarrow>
        handleCookieChange h ci s =
          (None,
           logAudit h (BLACKLIST_DELETED (c_name (ci_cookie ci)) (c_domain (ci_cookie ci)) p)
             ((logCookieChange h ci s)
                \<lparr>calls := calls s @ [CookiesRemove (cookie_url (ci_cookie ci)) (c_name (ci_cookie ci))],
                 tick := tick s + 3\<rparr>)) \<and>
        calls (snd (handleCookieChange h ci s)) =
          calls s @ [CookiesRemove (cookie_url (ci_cookie ci)) (c_name (ci_cookie ci))] \<and>
        auditLog (snd (handleCookieChange h ci s)) =
          take 1000
            (AuditEntry (Date_now h (tick s + 3))
               (BLACKLIST_DELETED (c_name (ci_cookie ci)) (c_domain (ci_cookie ci)) p)
             # take 1000 (change_entry (Date_now h (tick s)) ci # auditLog s)) \<and>
        st_encrypted (storage (snd (handleCookieChange h ci s))) = st_encrypted (storage s))"
proof (intro conjI impI)
  assume bl: "blacklist s = pre @ p # post"
    and pre: "list_all (\<lambda>q. list_pattern_test h q (c_domain (ci_cookie ci)) \<noteq> Some True) pre"
    and hit: "list_pattern_test h p (c_domain (ci_cookie ci)) = Some True"
  define s1 where "s1 = logCookieChange h ci s"
  have t1: "tick s1 = tick s + 2" and b1: "blacklist s1 = pre @ p # post"
    and c1: "calls s1 = calls s"
    and a1: "auditLog s1 = take 1000 (change_entry (Date_now h (tick s)) ci # auditLog s)"
    and e1: "st_encrypted (storage s1) = st_encrypted (storage s)"
    by (simp_all add: s1_def logCookieChange_def Let_def bl unshift_capped_def)
  have skip: "check_blacklist h (ci_cookie ci) (blacklist s) s1
      = check_blacklist h (ci_cookie ci) (p # post) s1"
    by (simp only: bl check_blacklist_skip [OF pre])
  have "prefix (calls s1 @ [CookiesRemove (cookie_url (ci_cookie ci)) (c_name (ci_cookie ci))])
      (calls (snd (check_blacklist h (ci_cookie ci) (blacklist s) s1)))"
    unfolding skip using hit by (rule check_blacklist_hit_calls)
  moreover have "prefix (calls (snd (check_blacklist h (ci_cookie ci) (blacklist s) s1)))
      (calls (snd (handleCookieChange h ci s)))"
    unfolding s1_def by (rule calls_handleCookieChange)
  ultimately show "prefix
      (calls s @ [CookiesRemove (cookie_url (ci_cookie ci)) (c_name (ci_cookie ci))])
      (calls (snd (handleCookieChange h ci s)))"
    unfolding c1 by (rule prefix_order.trans)
  assume ok: "cookies_remove_ok h (tick s + 2) (cookie_url (ci_cookie ci)) (c_name (ci_cookie ci))"
  have "check_blacklist h (ci_cookie ci) (blacklist s1) s1 =
      (True, logAudit h (BLACKLIST_DELETED (c_name (ci_cookie ci)) (c_domain (ci_cookie ci)) p)
               (s1\<lparr>calls := calls s1 @ [CookiesRemove (cookie_url (ci_cookie ci)) (c_name (ci_cookie ci))],
                   tick := Suc (tick s1)\<rparr>))"
    using ok by (simp only: b1 check_blacklist_skip [OF pre] check_blacklist_hit [OF hit] t1)
  then have main: "handleCookieChange h ci s =
      (None, logAudit h (BLACKLIST_DELETED (c_name (ci_cookie ci)) (c_domain (ci_cookie ci)) p)
               (s1\<lparr>calls := calls s @ [CookiesRemove (cookie_url (ci_cookie ci)) (c_name (ci_cookie ci))],
                   tick := tick s + 3\<rparr>))"
    by (simp add: handleCookieChange_def Let_def applyWhitelistBlacklist_def s1_def [symmetric] t1 c1
          numeral_3_eq_3)
  show "handleCookieChange h ci s =
          (None,
           logAudit h (BLACKLIST_DELETED (c_name (ci_cookie ci)) (c_domain (ci_cookie ci)) p)
             ((logCookieChange h ci s)
                \<lparr>calls := calls s @ [CookiesRemove (cookie_url (ci_cookie ci)) (c_name (ci_cookie ci))],
                 tick := tick s + 3\<rparr>))"
    unfolding main s1_def by (rule refl)
  show "calls (snd (handleCookieChange h ci s)) =
          calls s @ [CookiesRemove (cookie_url (ci_cookie ci)) (c_name (ci_cookie ci))]"
    unfolding main by simp
  show "auditLog (snd (handleCookieChange h ci s)) =
          take 1000
            (AuditEntry (Date_now h (tick s + 3))
               (BLACKLIST_DELETED (c_name (ci_cookie ci)) (c_domain (ci_cookie ci)) p)
             # take 1000 (change_entry (Date_now h (tick s)) ci # auditLog s))"
    unfolding main by (simp add: logAudit_def Let_def unshift_capped_def a1)
  show "st_encrypted (storage (snd (handleCookieChange h ci s))) = st_encrypted (storage s)"
    unfolding main by (simp add: logAudit_def Let_def e1)
qed

text \<open>
  The scenario of the specification, with a pattern before the matching one and a
  whitelist that matches the domain as well.
\<close>

definition listed_state :: state where
  "listed_state =
     state0\<lparr>blacklist := [''tracker.net'', ''*.ads.example.com''], whitelist := [''*.example.com'']\<rparr>"

theorem blacklist_precedence_witness:
  "blacklist listed_state = [''tracker.net''] @ ''*.ads.example.com'' # [] \<and>
   list_all (\<lambda>q. list_pattern_test host0 q (c_domain (ci_cookie change0)) \<noteq> Some True)
     [''tracker.net''] \<and>
   list_pattern_test host0 ''*.ads.example.com'' (c_domain (ci_cookie change0)) = Some True \<and>
   cookies_remove_ok host0 (tick listed_state + 2) (cookie_url (ci_cookie change0))
     (c_name (ci_cookie change0)) \<and>
   calls (snd (handleCookieChange host0 change0 listed_state)) =
     [CookiesRemove ''https://x.ads.example.com/'' ''sess''] \<and>
   auditLog (snd (handleCookieChange host0 change0 listed_state)) =
     [AuditEntry 1700000000003 (BLACKLIST_DELETED ''sess'' ''x.ads.example.com'' ''*.ads.example.com''),
      change_entry 1700000000000 change0]"
proof -
  have 1: "blacklist listed_state = [''tracker.net''] @ ''*.ads.example.com'' # []"
    by (simp add: listed_state_def)
  have 2: "list_all (\<lambda>q. list_pattern_test host0 q (c_domain (ci_cookie change0)) \<noteq> Some True)
     [''tracker.net'']"
    by (simp add: list_pattern_test_def host0_def fragment_RegExp_def replace_star_def test_def
          change0_def cookie0_def)
  have 3: "list_pattern_test host0 ''*.ads.example.com'' (c_domain (ci_cookie change0)) = Some True"
    by (simp add: list_pattern_test_def host0_def fragment_RegExp_def parse_ads test_def
          change0_def cookie0_def)
  have 4: "cookies_remove_ok host0 (tick listed_state + 2) (cookie_url (ci_cookie change0))
     (c_name (ci_cookie change0))"
    by (simp add: host0_def)
  have 5: "calls listed_state = [] \<and> auditLog listed_state = [] \<and> tick listed_state = 0"
    by (simp add: listed_state_def state0_def)
  have 6: "cookie_url (ci_cookie change0) = ''https://x.ads.example.com/'' \<and>
      c_name (ci_cookie change0) = ''sess'' \<and> c_domain (ci_cookie change0) = ''x.ads.example.com''"
    by (simp add: change0_def cookie0_def cookie_url_def)
  have 7: "Date_now host0 3 = 1700000000003 \<and> Date_now host0 0 = 1700000000000"
    by (simp add: host0_def)
  note r = blacklist_precedence [OF 1 2 3, THEN conjunct2, THEN mp, OF 4]
  from r [THEN conjunct2, THEN conjunct1] r [THEN conjunct2, THEN conjunct2, THEN conjunct1]
    1 2 3 4
  show ?thesis
    by (simp add: 5 6 7)
qed


section \<open>Expiration by rule\<close>








section \<open>Idempotence of the encryption substitution\<close>

lemma prefix_sentinel: "prefix (js ''ENCRYPTED_REF_'') (sentinel c)"
  by (simp add: sentinel_def js_def)

lemma sentinel_update [simp]: "sentinel (c\<lparr>c_value := v\<rparr>) = sentinel c"
  by (simp add: sentinel_def)

text \<open>
  Claim C7. On a cookie whose value starts with \<^verbatim>\<open>ENCRYPTED_REF_\<close>, \<^verbatim>\<open>applyEncryption\<close>
  returns the state it was given: no host is asked (the tick stays), no cookie is set,
  the storage with its envelopes and the audit log are unchanged. The cookie that the
  substitution writes has such a value, so a second run on the substituted cookie,
  also right after the first, changes nothing.
\<close>

theorem encryption_idempotent:
  "(prefix (js ''ENCRYPTED_REF_'') (c_value c) \<longrightarrow> applyEncryption h c s = s) \<and>
   applyEncryption h (c\<lparr>c_value := sentinel c\<rparr>) s = s \<and>
   applyEncryption h (c\<lparr>c_value := sentinel c\<rparr>) (applyEncryption h c s) = applyEncryption h c s"
  by (simp add: applyEncryption_def prefix_sentinel)

text \<open>A cookie of a banking site: the first run substitutes its value, the second does nothing.\<close>

definition bank_cookie :: cookie where
  "bank_cookie = cookie0\<lparr>c_domain := ''mybank.com''\<rparr>"

lemma bank_should: "should_encrypt ''mybank.com'' getDefaultRules False"
  by (simp add: getDefaultRules_def pattern_matches_def any_word_ci_def lower_def sublist_code)

lemma bank_first_run:
  "calls (applyEncryption host0 bank_cookie state0)
     = [CookiesSet (bank_cookie\<lparr>c_value := sentinel bank_cookie\<rparr>)] \<and>
   auditLog (applyEncryption host0 bank_cookie state0)
     = [AuditEntry 1700000000004 (ENCRYPTED ''sess'' ''mybank.com'' ''auto_encryption'')] \<and>
   st_encrypted (storage (applyEncryption host0 bank_cookie state0)) ''encrypted_mybank.com_sess''
     \<noteq> None"
  by (simp add: applyEncryption_def bank_should state0_def bank_cookie_def cookie0_def js_def
        encryptCookie_def Let_def host0_def toy_encrypt_def logAudit_def unshift_capped_eq
        envelope_key_def)

theorem encryption_idempotent_witness:
  "prefix (js ''ENCRYPTED_REF_'') (c_value (bank_cookie\<lparr>c_value := sentinel bank_cookie\<rparr>)) \<and>
   calls (applyEncryption host0 bank_cookie state0)
     = [CookiesSet (bank_cookie\<lparr>c_value := sentinel bank_cookie\<rparr>)] \<and>
   applyEncryption host0 (bank_cookie\<lparr>c_value := sentinel bank_cookie\<rparr>)
       (applyEncryption host0 bank_cookie state0)
     = applyEncryption host0 bank_cookie state0"
  using encryption_idempotent [of bank_cookie host0 state0] bank_first_run
  by (simp add: prefix_sentinel)

section \<open>Whitelist and override rules\<close>

text \<open>
  A whitelisted domain with an entry in the stored side table: the override asks for an
  expiration of ten minutes and for encryption.
\<close>

definition override_rule :: rule where
  "override_rule = \<lparr>r_expiration = Some 10, r_encrypt = True, r_pattern = None,
                     r_priority = ''high'', r_autoDelete = False\<rparr>"

definition override_state :: state where
  "override_state =
     state0\<lparr>whitelist := [''example.org''],
            storage := store0\<lparr>st_whitelistRules := Some [(''example.org'', override_rule)]\<rparr>\<rparr>"

lemma get_result_lookup_domain:
  "d \<noteq> ''whitelistRules'' \<Longrightarrow> d \<notin> set object_prototype_names \<Longrightarrow> get_result_lookup st d = None"
  by (simp add: get_result_lookup_def)

text \<open>
  Claim C9 on the code. The filter allows the cookie, but the side table is never
  consulted for the cookie's domain: the code indexes the object that
  \<^verbatim>\<open>storage.local.get\<close> resolves to, whose only key is \<^verbatim>\<open>whitelistRules\<close>, so \<open>rule\<close> is
  \<^verbatim>\<open>undefined\<close> and \<^verbatim>\<open>applyWhitelistRule\<close> is not called. No cookie is set, nothing is
  encrypted, no entry is logged: only the tick of the storage read has passed.
\<close>

theorem whitelist_override_ignored:
  "map_of (the (st_whitelistRules (storage override_state))) (c_domain org_cookie)
     = Some override_rule \<and>
   list_pattern_test host0 ''example.org'' (c_domain org_cookie) = Some True \<and>
   applyWhitelistBlacklist host0 org_cookie override_state
     = (Some True, override_state\<lparr>tick := 1\<rparr>)"
  by (simp add: applyWhitelistBlacklist_def override_state_def state0_def store0_def org_cookie_def
        cookie0_def host0_def list_pattern_test_def fragment_RegExp_def replace_star_def test_def
        get_result_lookup_def object_prototype_names_def)


section \<open>List patterns are regular expressions, searched for\<close>
















section \<open>Base64 and text conversions are inverse\<close>

lemma div_group: "(y::nat) < k \<Longrightarrow> (x * k + y) div k = x"
  by simp

lemma mod_group: "(y::nat) < k \<Longrightarrow> (x * k + y) mod k = y"
  by simp

lemma sextet_arith_first: "(b::nat) < 256 \<Longrightarrow> a div 4 * 4 + (a mod 4 * 16 + b div 16) div 16 = a"
proof -
  assume "b < 256"
  then have "b div 16 < 16" by simp
  then have "(a mod 4 * 16 + b div 16) div 16 = a mod 4" by (rule div_group)
  then show ?thesis by simp
qed

lemma sextet_arith_second:
  "(b::nat) < 256 \<Longrightarrow> c < 256 \<Longrightarrow>
     (a mod 4 * 16 + b div 16) mod 16 * 16 + (b mod 16 * 4 + c div 64) div 4 = b"
proof -
  assume "b < 256" "c < 256"
  then have "b div 16 < 16" "c div 64 < 4" by simp_all
  then have "(a mod 4 * 16 + b div 16) mod 16 = b div 16"
    and "(b mod 16 * 4 + c div 64) div 4 = b mod 16"
    by (simp_all only: div_group mod_group)
  then show ?thesis by simp
qed

lemma sextet_arith_third: "(c::nat) < 256 \<Longrightarrow> (b mod 16 * 4 + c div 64) mod 4 * 64 + c mod 64 = c"
proof -
  assume "c < 256"
  then have "c div 64 < 4" by simp
  then have "(b mod 16 * 4 + c div 64) mod 4 = c div 64" by (rule mod_group)
  then show ?thesis by simp
qed

lemma sextet_arith_second_short: "(b::nat) < 256 \<Longrightarrow> (a mod 4 * 16 + b div 16) mod 16 * 16 + (b mod 16 * 4) div 4 = b"
proof -
  assume "b < 256"
  then have "b div 16 < 16" by simp
  then have "(a mod 4 * 16 + b div 16) mod 16 = b div 16" by (rule mod_group)
  then show ?thesis by simp
qed

lemma sextet_arith_first_short: "(a::nat) div 4 * 4 + (a mod 4 * 16) div 16 = a"
  by simp

lemma unat_lt_256: "unat (b :: byte) < 256"
  using unsigned_less [of b, where 'a = nat] by simp

lemma group_first_byte:
  "of_nat (unat a div 4 * 4 + (unat a mod 4 * 16 + unat (b::byte) div 16) div 16) = (a::byte)"
  by (simp only: sextet_arith_first [OF unat_lt_256]) simp

lemma group_second_byte:
  "of_nat ((unat (a::byte) mod 4 * 16 + unat b div 16) mod 16 * 16
      + (unat b mod 16 * 4 + unat (c::byte) div 64) div 4) = (b::byte)"
  by (simp only: sextet_arith_second [OF unat_lt_256 unat_lt_256]) simp

lemma group_third_byte: "of_nat ((unat (b::byte) mod 16 * 4 + unat c div 64) mod 4 * 64 + unat c mod 64) = (c::byte)"
  by (simp only: sextet_arith_third [OF unat_lt_256]) simp

lemma group_second_byte_short:
  "of_nat ((unat (a::byte) mod 4 * 16 + unat b div 16) mod 16 * 16 + (unat b mod 16 * 4) div 4)
     = (b::byte)"
  by (simp only: sextet_arith_second_short [OF unat_lt_256]) simp

lemma group_first_byte_short: "of_nat (unat a div 4 * 4 + (unat a mod 4 * 16) div 16) = (a::byte)"
  by (simp only: sextet_arith_first_short) simp

lemma bytes_of_sextets_of: "bytes_of (sextets_of bs) = bs"
  by (induction bs rule: sextets_of.induct)
     (simp_all only: sextets_of.simps bytes_of.simps append_Cons append_Nil group_first_byte group_second_byte group_third_byte group_second_byte_short group_first_byte_short)

lemma sextets_lt: "n \<in> set (sextets_of bs) \<Longrightarrow> n < 64"
proof (induction bs arbitrary: n rule: sextets_of.induct)
  case (1 a b c r)
  have "unat a < 256" "unat b < 256" "unat c < 256" by (rule unat_lt_256)+
  then have "unat a div 4 < 64" "unat a mod 4 * 16 + unat b div 16 < 64"
    "unat b mod 16 * 4 + unat c div 64 < 64" "unat c mod 64 < 64"
    by simp_all
  with 1 show ?case by auto
next
  case (2 a b)
  have "unat a < 256" "unat b < 256" by (rule unat_lt_256)+
  then have "unat a div 4 < 64" "unat a mod 4 * 16 + unat b div 16 < 64"
    "unat b mod 16 * 4 < 64"
    by simp_all
  with 2 show ?case by auto
next
  case (3 a)
  have "unat a < 256" by (rule unat_lt_256)
  then have "unat a div 4 < 64" "unat a mod 4 * 16 < 64" by simp_all
  with 3 show ?case by auto
next
  case 4
  then show ?case by simp
qed


lemma div3_step: "(3 + n) div 3 = Suc (n div 3)" "(3 + n) mod 3 = n mod (3::nat)"
  by simp_all

lemma length_sextets_of:
  "length (sextets_of bs) =
     (length bs div 3) * 4 + (if length bs mod 3 = 0 then 0 else length bs mod 3 + 1)"
  by (induction bs rule: sextets_of.induct) (simp_all add: div3_step)

lemma distinct_b64_alphabet: "distinct b64_alphabet"
  by (simp add: b64_alphabet_def)

lemma length_b64_alphabet: "length b64_alphabet = 64"
  by (simp add: b64_alphabet_def)

lemma position_nth: "distinct xs \<Longrightarrow> n < length xs \<Longrightarrow> position (xs ! n) xs = Some n"
proof (induction xs arbitrary: n)
  case Nil
  then show ?case by simp
next
  case (Cons x xs)
  then show ?case by (cases n) auto
qed

lemma those_map_Some: "those (map Some xs) = Some xs"
  by (induction xs) simp_all

lemma those_position:
  "\<forall>n \<in> set ns. n < 64 \<Longrightarrow>
     those (map (\<lambda>c. position c b64_alphabet) (map (\<lambda>n. b64_alphabet ! n) ns)) = Some ns"
  by (induction ns) (simp_all add: position_nth distinct_b64_alphabet length_b64_alphabet)

lemma alphabet_char:
  assumes "n < 64"
  shows "b64_alphabet ! n \<noteq> CHR ''=''" and "b64_alphabet ! n \<notin> set ascii_whitespace"
proof -
  have "b64_alphabet ! n \<in> set b64_alphabet"
    using assms by (simp add: length_b64_alphabet)
  moreover have "CHR ''='' \<notin> set b64_alphabet" "set ascii_whitespace \<inter> set b64_alphabet = {}"
    by (simp_all add: b64_alphabet_def ascii_whitespace_def)
  ultimately show "b64_alphabet ! n \<noteq> CHR ''=''" and "b64_alphabet ! n \<notin> set ascii_whitespace"
    by auto
qed

lemma drop_last_eq_body:
  assumes "\<forall>c \<in> set body. c \<noteq> CHR ''=''" and "k \<le> 2"
  shows "drop_last_eq (drop_last_eq (body @ replicate k CHR ''='')) = body"
proof -
  have none: "drop_last_eq body = body"
    using assms(1) by (cases body rule: rev_cases) (auto simp: drop_last_eq_def)
  have one: "drop_last_eq (body @ [CHR ''='']) = body"
    by (simp add: drop_last_eq_def)
  have two: "drop_last_eq (body @ [CHR ''='', CHR ''='']) = body @ [CHR ''='']"
    by (simp add: drop_last_eq_def butlast_append)
  consider "k = 0" | "k = 1" | "k = 2" using assms(2) by linarith
  then show ?thesis
    by cases (simp_all add: none one two numeral_2_eq_2)
qed

lemma atob_btoa: "atob (btoa bs) = Some bs"
proof -
  define body where "body = map (\<lambda>n. b64_alphabet ! n) (sextets_of bs)"
  define k where "k = (3 - length bs mod 3) mod 3"
  have b: "btoa bs = body @ replicate k CHR ''=''"
    by (simp add: btoa_def body_def k_def)
  have lt: "\<forall>n \<in> set (sextets_of bs). n < 64"
    by (simp add: sextets_lt)
  have body_chars: "\<forall>c \<in> set body. c \<noteq> CHR ''='' \<and> c \<notin> set ascii_whitespace"
    using lt by (auto simp: body_def alphabet_char)
  have ws: "CHR ''='' \<notin> set ascii_whitespace"
    by (simp add: ascii_whitespace_def)
  have f: "filter (\<lambda>c. c \<notin> set ascii_whitespace) (btoa bs) = btoa bs"
    using body_chars ws by (auto simp: b filter_id_conv)
  have k2: "k \<le> 2" by (simp add: k_def)
  have len_body: "length body =
      (length bs div 3) * 4 + (if length bs mod 3 = 0 then 0 else length bs mod 3 + 1)"
    by (simp add: body_def length_sextets_of)
  have len: "length (btoa bs) mod 4 = 0"
    unfolding b using len_body by (auto simp: k_def mod_Suc split: if_splits)
  have body1: "length body mod 4 \<noteq> 1"
    using len_body by (auto simp: mod_Suc split: if_splits)
  have strip: "drop_last_eq (drop_last_eq (btoa bs)) = body"
    unfolding b using body_chars k2 by (intro drop_last_eq_body) auto
  have "those (map (\<lambda>c. position c b64_alphabet) body) = Some (sextets_of bs)"
    unfolding body_def using lt by (rule those_position)
  then show ?thesis
    using body1 by (simp add: atob_def Let_def f len strip bytes_of_sextets_of)
qed





























section \<open>Encryption round trip and key rotation\<close>


definition aead_authentic :: "host \<Rightarrow> bool" where
  "aead_authentic h \<longleftrightarrow>
     (\<forall>k k' iv m ct. subtle_encrypt h k iv m = Some ct \<and> k' \<noteq> k
        \<longrightarrow> subtle_decrypt h k' iv ct = None)"

lemma base64_roundtrip: "base64ToArrayBuffer (arrayBufferToBase64 b) = Some b"
  by (simp add: base64ToArrayBuffer_def arrayBufferToBase64_def atob_btoa)


lemma encryptCookie_cases:
  "encryptCookie h n (Some k) v d = Inr env \<Longrightarrow>
     \<exists>ct. subtle_encrypt h k (getRandomValues h n 12) (TextEncoder_encode v) = Some ct \<and>
          e_encrypted env = arrayBufferToBase64 ct \<and>
          e_iv env = arrayBufferToBase64 (getRandomValues h n 12)"
  by (auto simp: encryptCookie_def Let_def split: option.splits)

lemma decryptCookie_envelope:
  "e_encrypted env = arrayBufferToBase64 ct \<Longrightarrow> e_iv env = arrayBufferToBase64 iv \<Longrightarrow>
     decryptCookie h (Some k) env =
       (case subtle_decrypt h k iv ct of
          None \<Rightarrow> Inl OperationError
        | Some decrypted \<Rightarrow> Inr (TextDecoder_decode decrypted))"
  by (simp add: decryptCookie_def base64_roundtrip)



lemma toy_authentic: "aead_authentic host0"
  by (auto simp: aead_authentic_def host0_def toy_encrypt_def toy_decrypt_def split: if_splits)




text \<open>
  Claim C6. An envelope was produced under the key \<open>k\<close> of a \<^verbatim>\<open>CookieEncryption\<close>
  object; \<^verbatim>\<open>generateNewKey\<close> then replaces the key by a fresh one, different from \<open>k\<close>
  (and stores it, if the storage accepts the write). With a host whose AES-GCM
  authenticates, \<^verbatim>\<open>decryptCookie\<close> on the envelope is rejected with the host's
  \<^verbatim>\<open>OperationError\<close>; it returns no plaintext. An engine that holds the new key answers
  a \<^verbatim>\<open>DECRYPT_COOKIE\<close> message for the envelope with a failure.
\<close>

theorem rotated_key_fails:
  "aead_authentic h \<Longrightarrow> key cs = Some k \<Longrightarrow> encryptCookie h n (key cs) v d = Inr env \<Longrightarrow>
   subtle_generateKey h m \<noteq> k \<Longrightarrow>
     key (snd (generateNewKey h m cs)) = Some (subtle_generateKey h m) \<and>
     (storage_set_ok h (Suc m) ''encryptionKey'' \<longrightarrow>
        persisted (snd (generateNewKey h m cs)) = Some (arrayBufferToBase64 (subtle_generateKey h m))) \<and>
     decryptCookie h (key (snd (generateNewKey h m cs))) env = Inl OperationError \<and>
     (encryption s = Some (Some (subtle_generateKey h m)) \<longrightarrow>
        fst (handleMessage h (DECRYPT_COOKIE env) s) = Failure OperationError)"
proof -
  assume a: "aead_authentic h" and k: "key cs = Some k"
    and e: "encryptCookie h n (key cs) v d = Inr env" and fresh: "subtle_generateKey h m \<noteq> k"
  from e k obtain ct where
    ct: "subtle_encrypt h k (getRandomValues h n 12) (TextEncoder_encode v) = Some ct"
      "e_encrypted env = arrayBufferToBase64 ct"
      "e_iv env = arrayBufferToBase64 (getRandomValues h n 12)"
    using encryptCookie_cases [of h n k v d env] by auto
  have "subtle_decrypt h (subtle_generateKey h m) (getRandomValues h n 12) ct = None"
    using a ct(1) fresh unfolding aead_authentic_def by blast
  then have d: "decryptCookie h (Some (subtle_generateKey h m)) env = Inl OperationError"
    using ct by (simp add: decryptCookie_envelope [where ct = ct and iv = "getRandomValues h n 12"])
  have g: "key (snd (generateNewKey h m cs)) = Some (subtle_generateKey h m)"
    by (simp add: generateNewKey_def Let_def)
  show ?thesis
    using d by (simp add: g) (simp add: generateNewKey_def Let_def)
qed

theorem rotated_key_fails_witness:
  "aead_authentic host0 \<and>
   subtle_generateKey host0 9 \<noteq> replicate 32 7 \<and>
   (\<exists>env. encryptCookie host0 0 (Some (replicate 32 7)) (js ''abc'') ''mybank.com'' = Inr env \<and>
          decryptCookie host0
            (key (snd (generateNewKey host0 9 \<lparr>key = Some (replicate 32 7), persisted = None\<rparr>)))
            env = Inl OperationError)"
proof -
  have 1: "subtle_generateKey host0 9 \<noteq> replicate 32 7"
    by (simp add: host0_def)
  have 2: "key \<lparr>key = Some (replicate 32 7), persisted = None\<rparr> = Some (replicate 32 7)"
    by simp
  obtain env where 3:
    "encryptCookie host0 0 (key \<lparr>key = Some (replicate 32 7), persisted = None\<rparr>) (js ''abc'')
       ''mybank.com'' = Inr env"
    by (simp add: encryptCookie_def Let_def host0_def toy_encrypt_def)
  note r = rotated_key_fails [OF toy_authentic 2 3 1, where s = state0]
  from r [THEN conjunct2, THEN conjunct2, THEN conjunct1] 3 toy_authentic 1
  show ?thesis by auto
qed


end
